theory Spec2Isabelle
  imports Main
begin

section \<open>Cluster objects\<close>

text \<open>
  The snapshot of package \<open>simulator\<close> stores \<open>*apiv1.Node\<close> and \<open>*apiv1.Pod\<close> values and reads
  only a few of their fields: the name of a node; the namespace, the name and the labels of a
  pod; and (through the scheduler's \<open>NodeInfo\<close>) whether a pod declares inter-pod affinity or
  anti-affinity, which the field \<open>PodAffinity\<close> records. The snapshot never writes to a node
  or a pod, so both are modelled as values.
\<close>

type_synonym labels = "(string \<times> string) list"

record Pod =
  PodNamespace :: string
  PodName :: string
  PodLabels :: labels
  PodAffinity :: bool

record Node =
  NodeName :: string
  NodeLabels :: labels

section \<open>The scheduler's NodeInfo\<close>

text \<open>
  \<open>schedulernodeinfo.NodeInfo\<close> (the spec's NodeRecord) belongs to the vendored scheduler
  package \<open>k8s.io/kubernetes/pkg/scheduler/nodeinfo\<close>; the snapshot only calls it, and its
  source is not among the sources of this development. Each of its methods that the
  snapshot calls is therefore written from the spec's description of the NodeRecord: one node
  together with the pods assigned to it, a derived fact "has at least one pod declaring
  inter-pod affinity/anti-affinity", and a copy whose collection of pods is its own.
\<close>

datatype NodeInfoError = NoCorrespondingPod

text \<open>
  Modelled from the spec: the type \<open>NodeInfo\<close>. A NodeRecord wraps one node (none before
  \<open>SetNode\<close>) and the pods currently assigned to it.
\<close>

record NodeInfo =
  node :: "Node option"
  pods :: "Pod list"

text \<open>
  Modelled from the spec: \<open>NewNodeInfo()\<close> and \<open>SetNode\<close>. \<open>addNode\<close> "inserts a new NodeRecord
  wrapping the node with an empty pod set"; the spec names no failure of \<open>SetNode\<close>, whose
  error result the source checks.
\<close>

definition NewNodeInfo :: NodeInfo where
  "NewNodeInfo = \<lparr>node = None, pods = []\<rparr>"

definition NodeInfo_SetNode :: "Node \<Rightarrow> NodeInfo \<Rightarrow> NodeInfoError + NodeInfo" where
  "NodeInfo_SetNode n ni = Inr (ni\<lparr>node := Some n\<rparr>)"

text \<open>Modelled from the spec: the accessors \<open>Node()\<close> and \<open>Pods()\<close> of a NodeRecord.\<close>

definition NodeInfo_Node :: "NodeInfo \<Rightarrow> Node option" where
  "NodeInfo_Node ni = node ni"

definition NodeInfo_Pods :: "NodeInfo \<Rightarrow> Pod list" where
  "NodeInfo_Pods ni = pods ni"

text \<open>
  Modelled from the spec: \<open>PodsWithAffinity()\<close>, the pods behind the derived fact "has at
  least one pod declaring inter-pod affinity/anti-affinity".
\<close>

definition NodeInfo_PodsWithAffinity :: "NodeInfo \<Rightarrow> Pod list" where
  "NodeInfo_PodsWithAffinity ni = filter PodAffinity (pods ni)"

text \<open>
  Modelled from the spec: \<open>Clone()\<close>, a copy with the same node and the same pods in a
  collection of its own. The caller places the copy in a new object.
\<close>

definition NodeInfo_Clone :: "NodeInfo \<Rightarrow> NodeInfo" where
  "NodeInfo_Clone ni = \<lparr>node = node ni, pods = pods ni\<rparr>"

text \<open>Modelled from the spec: \<open>AddPod\<close>; \<open>addPod\<close> "appends the pod to the NodeRecord".\<close>

definition NodeInfo_AddPod :: "Pod \<Rightarrow> NodeInfo \<Rightarrow> NodeInfo" where
  "NodeInfo_AddPod pod ni = ni\<lparr>pods := pods ni @ [pod]\<rparr>"

text \<open>
  Modelled from the spec: \<open>RemovePod\<close>. \<open>removePod\<close> hands it the pod it found in the record
  and "removes the first exact match found"; the method takes that pod out of the record,
  and its error result, which the source checks, reports a pod the record does not hold.
\<close>

definition NodeInfo_RemovePod :: "Pod \<Rightarrow> NodeInfo \<Rightarrow> NodeInfoError + NodeInfo" where
  "NodeInfo_RemovePod pod ni =
     (if pod \<in> set (pods ni) then Inr (ni\<lparr>pods := remove1 pod (pods ni)\<rparr>)
      else Inl NoCorrespondingPod)"

section \<open>The heap of NodeInfo objects\<close>

text \<open>
  \<open>nodeInfoMap\<close> maps node names to pointers \<open>*NodeInfo\<close>, and \<open>addPod\<close> and \<open>removePod\<close>
  mutate the object behind the pointer. Whether a fork is isolated from the base data depends
  on which pointers the two maps share, so the objects live in an explicit heap: a pointer is
  an address, \<open>objects\<close> gives the object at an address, and every address below \<open>allocated\<close>
  has been handed out. Go is garbage collected: nothing is ever freed.
\<close>

type_synonym addr = nat

record heap =
  objects :: "addr \<Rightarrow> NodeInfo"
  allocated :: addr

definition empty_heap :: heap where
  "empty_heap = \<lparr>objects = (\<lambda>_. NewNodeInfo), allocated = 0\<rparr>"

definition alloc :: "NodeInfo \<Rightarrow> heap \<Rightarrow> addr \<times> heap" where
  "alloc ni h =
     (allocated h, \<lparr>objects = (objects h)(allocated h := ni), allocated = Suc (allocated h)\<rparr>)"

definition store :: "addr \<Rightarrow> NodeInfo \<Rightarrow> heap \<Rightarrow> heap" where
  "store a ni h = h\<lparr>objects := (objects h)(a := ni)\<rparr>"

section \<open>Iterating over a Go map\<close>

text \<open>
  A Go map is a partial function. A loop \<open>for k, v := range m\<close> visits every entry once, in an
  order the runtime chooses anew for each loop. Each function with such a loop takes the
  order \<open>ks\<close> of the keys as an argument; \<open>enumerates ks m\<close> says that \<open>ks\<close> is an order the
  runtime can choose for \<open>m\<close>, and \<open>range_map ks m\<close> is the sequence of entries visited
  (a key of \<open>ks\<close> that the map does not hold is passed over). A loop that appends to a slice
  for each entry is written with \<open>map\<close>, \<open>filter\<close> and \<open>concat\<close> over that sequence; a loop that
  returns at the first element satisfying a test is written with \<open>find\<close>.
\<close>

definition enumerates :: "'k list \<Rightarrow> ('k \<rightharpoonup> 'v) \<Rightarrow> bool" where
  "enumerates ks m \<longleftrightarrow> distinct ks \<and> set ks = dom m"

fun range_map :: "'k list \<Rightarrow> ('k \<rightharpoonup> 'v) \<Rightarrow> ('k \<times> 'v) list" where
  "range_map [] m = []"
| "range_map (k # ks) m =
     (case m k of None \<Rightarrow> range_map ks m | Some v \<Rightarrow> (k, v) # range_map ks m)"

section \<open>Errors\<close>

text \<open>
  The source builds its errors with \<open>fmt.Errorf\<close>; one constructor stands for each message:
  "node %s already in snapshot", "node %s not in snapshot", "pod %s/%s not in snapshot",
  "snapshot already forked", "cannot set node in NodeInfo; %v" and "cannot remove pod; %v".
  A Go \<open>error\<close> result is an \<open>error option\<close>, \<open>nil\<close> being \<open>None\<close>.
\<close>

datatype error =
    NodeAlreadyExists string
  | NodeNotFound string
  | PodNotFound string string
  | AlreadyForked
  | CannotSetNode NodeInfoError
  | CannotRemovePod NodeInfoError

section \<open>internalBasicSnapshotData\<close>

record internalBasicSnapshotData =
  nodeInfoMap :: "string \<rightharpoonup> addr"

subsection \<open>The node lister\<close>

definition NodeLister_List ::
  "string list \<Rightarrow> internalBasicSnapshotData \<Rightarrow> addr list \<times> error option" where
  "NodeLister_List ks data = (map snd (range_map ks (nodeInfoMap data)), None)"

definition NodeLister_HavePodsWithAffinityList ::
  "string list \<Rightarrow> internalBasicSnapshotData \<Rightarrow> heap \<Rightarrow> addr list \<times> error option" where
  "NodeLister_HavePodsWithAffinityList ks data h =
     (filter (\<lambda>v. length (NodeInfo_PodsWithAffinity (objects h v)) > 0)
        (map snd (range_map ks (nodeInfoMap data))), None)"

definition NodeLister_Get ::
  "string \<Rightarrow> internalBasicSnapshotData \<Rightarrow> addr option \<times> error option" where
  "NodeLister_Get nodeName data =
     (case nodeInfoMap data nodeName of
        Some v \<Rightarrow> (Some v, None)
      | None \<Rightarrow> (None, Some (NodeNotFound nodeName)))"

subsection \<open>The pod lister\<close>

text \<open>
  \<open>podFilter\<close> is the caller's function value; \<open>selector\<close> stands for
  \<open>selector.Matches(labels.Set(pod.Labels))\<close> of the caller's \<open>labels.Selector\<close>.
\<close>

definition PodLister_FilteredList ::
  "string list \<Rightarrow> (Pod \<Rightarrow> bool) \<Rightarrow> (labels \<Rightarrow> bool) \<Rightarrow> internalBasicSnapshotData \<Rightarrow> heap
     \<Rightarrow> Pod list \<times> error option" where
  "PodLister_FilteredList ks podFilter selector data h =
     (concat (map (\<lambda>(k, n). filter (\<lambda>pod. podFilter pod \<and> selector (PodLabels pod))
                                (NodeInfo_Pods (objects h n)))
                (range_map ks (nodeInfoMap data))), None)"

definition PodLister_List ::
  "string list \<Rightarrow> (labels \<Rightarrow> bool) \<Rightarrow> internalBasicSnapshotData \<Rightarrow> heap
     \<Rightarrow> Pod list \<times> error option" where
  "PodLister_List ks selector data h =
     (let alwaysTrue = (\<lambda>p. True) in PodLister_FilteredList ks alwaysTrue selector data h)"

subsection \<open>Construction and cloning\<close>

definition newInternalBasicSnapshotData :: internalBasicSnapshotData where
  "newInternalBasicSnapshotData = \<lparr>nodeInfoMap = Map.empty\<rparr>"

fun clone_loop ::
  "(string \<times> addr) list \<Rightarrow> (string \<rightharpoonup> addr) \<Rightarrow> heap \<Rightarrow> (string \<rightharpoonup> addr) \<times> heap" where
  "clone_loop [] clonedNodeInforMap h = (clonedNodeInforMap, h)"
| "clone_loop ((k, v) # kvs) clonedNodeInforMap h =
     (case alloc (NodeInfo_Clone (objects h v)) h of
        (a, h') \<Rightarrow> clone_loop kvs (clonedNodeInforMap(k \<mapsto> a)) h')"

definition clone ::
  "string list \<Rightarrow> internalBasicSnapshotData \<Rightarrow> heap \<Rightarrow> internalBasicSnapshotData \<times> heap" where
  "clone ks data h =
     (case clone_loop (range_map ks (nodeInfoMap data)) Map.empty h of
        (clonedNodeInforMap, h') \<Rightarrow> (\<lparr>nodeInfoMap = clonedNodeInforMap\<rparr>, h'))"

subsection \<open>Mutation\<close>

text \<open>
  A method with receiver \<open>data *internalBasicSnapshotData\<close> that mutates takes the data and
  the heap and returns its error with the data and the heap it leaves behind.
\<close>

definition addNode ::
  "Node \<Rightarrow> internalBasicSnapshotData \<Rightarrow> heap
     \<Rightarrow> error option \<times> internalBasicSnapshotData \<times> heap" where
  "addNode n data h =
     (if nodeInfoMap data (NodeName n) \<noteq> None then (Some (NodeAlreadyExists (NodeName n)), data, h)
      else case NodeInfo_SetNode n NewNodeInfo of
             Inl err \<Rightarrow> (Some (CannotSetNode err), data, h)
           | Inr nodeInfo \<Rightarrow>
               (case alloc nodeInfo h of
                  (a, h') \<Rightarrow> (None, data\<lparr>nodeInfoMap := (nodeInfoMap data)(NodeName n \<mapsto> a)\<rparr>, h')))"

definition removeNode ::
  "string \<Rightarrow> internalBasicSnapshotData \<Rightarrow> heap
     \<Rightarrow> error option \<times> internalBasicSnapshotData \<times> heap" where
  "removeNode nodeName data h =
     (if nodeInfoMap data nodeName = None then (Some (NodeNotFound nodeName), data, h)
      else (None, data\<lparr>nodeInfoMap := (nodeInfoMap data)(nodeName := None)\<rparr>, h))"

definition addPod ::
  "Pod \<Rightarrow> string \<Rightarrow> internalBasicSnapshotData \<Rightarrow> heap
     \<Rightarrow> error option \<times> internalBasicSnapshotData \<times> heap" where
  "addPod pod nodeName data h =
     (case nodeInfoMap data nodeName of
        None \<Rightarrow> (Some (NodeNotFound nodeName), data, h)
      | Some a \<Rightarrow> (None, data, store a (NodeInfo_AddPod pod (objects h a)) h))"

fun removePod_loop ::
  "(string \<times> addr) list \<Rightarrow> string \<Rightarrow> string \<Rightarrow> heap \<Rightarrow> error option \<times> heap" where
  "removePod_loop [] namespace podName h = (Some (PodNotFound namespace podName), h)"
| "removePod_loop ((k, nodeInfo) # kvs) namespace podName h =
     (case find (\<lambda>pod. PodNamespace pod = namespace \<and> PodName pod = podName)
             (NodeInfo_Pods (objects h nodeInfo)) of
        None \<Rightarrow> removePod_loop kvs namespace podName h
      | Some pod \<Rightarrow>
          (case NodeInfo_RemovePod pod (objects h nodeInfo) of
             Inl err \<Rightarrow> (Some (CannotRemovePod err), h)
           | Inr ni \<Rightarrow> (None, store nodeInfo ni h)))"

definition removePod ::
  "string list \<Rightarrow> string \<Rightarrow> string \<Rightarrow> internalBasicSnapshotData \<Rightarrow> heap
     \<Rightarrow> error option \<times> internalBasicSnapshotData \<times> heap" where
  "removePod ks namespace podName data h =
     (case removePod_loop (range_map ks (nodeInfoMap data)) namespace podName h of
        (err, h') \<Rightarrow> (err, data, h'))"

subsection \<open>Listing\<close>

definition getAllPods ::
  "string list \<Rightarrow> internalBasicSnapshotData \<Rightarrow> heap \<Rightarrow> Pod list \<times> error option" where
  "getAllPods ks data h =
     (concat (map (\<lambda>(k, nodeInfo). NodeInfo_Pods (objects h nodeInfo))
                (range_map ks (nodeInfoMap data))), None)"

definition getAllNodes ::
  "string list \<Rightarrow> internalBasicSnapshotData \<Rightarrow> heap \<Rightarrow> Node option list \<times> error option" where
  "getAllNodes ks data h =
     (map (\<lambda>(k, nodeInfo). NodeInfo_Node (objects h nodeInfo))
        (range_map ks (nodeInfoMap data)), None)"

section \<open>BasicClusterSnapshot\<close>

text \<open>
  \<open>baseData\<close> is never \<open>nil\<close> once \<open>Clear\<close> has run in the constructor; \<open>forkedData\<close> is \<open>nil\<close>
  (\<open>None\<close>) outside a fork. The two fields never point to the same data: \<open>Fork\<close> stores a new
  one and \<open>Commit\<close> moves the pointer and clears \<open>forkedData\<close>; so each field holds its data
  by value, and only the \<open>NodeInfo\<close> objects are shared through the heap.
\<close>

record BasicClusterSnapshot =
  baseData :: internalBasicSnapshotData
  forkedData :: "internalBasicSnapshotData option"

type_synonym world = "BasicClusterSnapshot \<times> heap"

definition getInternalData :: "BasicClusterSnapshot \<Rightarrow> internalBasicSnapshotData" where
  "getInternalData snapshot =
     (case forkedData snapshot of Some d \<Rightarrow> d | None \<Rightarrow> baseData snapshot)"

text \<open>
  A mutating method of the data returned by \<open>getInternalData\<close> changes the data the snapshot
  points to; \<open>setInternalData\<close> writes the changed data back to the field it was read from.
\<close>

definition setInternalData ::
  "internalBasicSnapshotData \<Rightarrow> BasicClusterSnapshot \<Rightarrow> BasicClusterSnapshot" where
  "setInternalData d snapshot =
     (case forkedData snapshot of
        Some _ \<Rightarrow> snapshot\<lparr>forkedData := Some d\<rparr>
      | None \<Rightarrow> snapshot\<lparr>baseData := d\<rparr>)"

definition onInternalData ::
  "(internalBasicSnapshotData \<Rightarrow> heap \<Rightarrow> error option \<times> internalBasicSnapshotData \<times> heap)
     \<Rightarrow> world \<Rightarrow> error option \<times> world" where
  "onInternalData f w =
     (case w of (snapshot, h) \<Rightarrow>
        (case f (getInternalData snapshot) h of
           (err, d, h') \<Rightarrow> (err, (setInternalData d snapshot, h'))))"

definition AddNode :: "Node \<Rightarrow> world \<Rightarrow> error option \<times> world" where
  "AddNode n w = onInternalData (addNode n) w"

definition RemoveNode :: "string \<Rightarrow> world \<Rightarrow> error option \<times> world" where
  "RemoveNode nodeName w = onInternalData (removeNode nodeName) w"

definition AddPod :: "Pod \<Rightarrow> string \<Rightarrow> world \<Rightarrow> error option \<times> world" where
  "AddPod pod nodeName w = onInternalData (addPod pod nodeName) w"

definition RemovePod :: "string list \<Rightarrow> string \<Rightarrow> string \<Rightarrow> world \<Rightarrow> error option \<times> world" where
  "RemovePod ks namespace podName w = onInternalData (removePod ks namespace podName) w"

definition GetAllPods :: "string list \<Rightarrow> world \<Rightarrow> Pod list \<times> error option" where
  "GetAllPods ks w = (case w of (snapshot, h) \<Rightarrow> getAllPods ks (getInternalData snapshot) h)"

definition GetAllNodes :: "string list \<Rightarrow> world \<Rightarrow> Node option list \<times> error option" where
  "GetAllNodes ks w = (case w of (snapshot, h) \<Rightarrow> getAllNodes ks (getInternalData snapshot) h)"

definition Fork :: "string list \<Rightarrow> world \<Rightarrow> error option \<times> world" where
  "Fork ks w =
     (case w of (snapshot, h) \<Rightarrow>
        if forkedData snapshot \<noteq> None then (Some AlreadyForked, w)
        else (case clone ks (baseData snapshot) h of
                (d, h') \<Rightarrow> (None, (snapshot\<lparr>forkedData := Some d\<rparr>, h'))))"

definition Revert :: "world \<Rightarrow> error option \<times> world" where
  "Revert w = (case w of (snapshot, h) \<Rightarrow> (None, (snapshot\<lparr>forkedData := None\<rparr>, h)))"

definition Commit :: "world \<Rightarrow> error option \<times> world" where
  "Commit w =
     (case w of (snapshot, h) \<Rightarrow>
        (case forkedData snapshot of
           None \<Rightarrow> (None, w)
         | Some d \<Rightarrow> (None, (snapshot\<lparr>baseData := d, forkedData := None\<rparr>, h))))"

definition Clear :: "world \<Rightarrow> error option \<times> world" where
  "Clear w =
     (case w of (snapshot, h) \<Rightarrow>
        (None, (snapshot\<lparr>baseData := newInternalBasicSnapshotData, forkedData := None\<rparr>, h)))"

text \<open>
  \<open>GetSchedulerLister\<close> hands out the active data; \<open>NodeInfos()\<close> and \<open>Pods()\<close> are
  conversions of that pointer to the two lister types, so the listers read the data that
  \<open>getInternalData\<close> returns.
\<close>

definition GetSchedulerLister :: "world \<Rightarrow> internalBasicSnapshotData \<times> error option" where
  "GetSchedulerLister w = (case w of (snapshot, h) \<Rightarrow> (getInternalData snapshot, None))"

text \<open>
  The constructor calls \<open>Clear\<close> on the zero value of the struct, whose two pointers are
  \<open>nil\<close>; \<open>Clear\<close> assigns both fields, so the value \<open>baseData\<close> has before that call is
  never read.
\<close>

definition NewBasicClusterSnapshot :: world where
  "NewBasicClusterSnapshot =
     snd (Clear (\<lparr>baseData = newInternalBasicSnapshotData, forkedData = None\<rparr>, empty_heap))"

section \<open>Sequences of operations\<close>

text \<open>
  A caller mutates the snapshot through \<open>AddNode\<close>, \<open>RemoveNode\<close>, \<open>AddPod\<close> and
  \<open>RemovePod\<close>. \<open>run\<close> performs a sequence of such calls; a call that returns an error leaves
  the world as the method left it, and the caller goes on. \<open>OpRemovePod\<close> carries the order
  in which the runtime enumerates the map during that call.
\<close>

datatype op =
    OpAddNode Node
  | OpRemoveNode string
  | OpAddPod Pod string
  | OpRemovePod "string list" string string

fun exec :: "op \<Rightarrow> world \<Rightarrow> error option \<times> world" where
  "exec (OpAddNode n) w = AddNode n w"
| "exec (OpRemoveNode nodeName) w = RemoveNode nodeName w"
| "exec (OpAddPod pod nodeName) w = AddPod pod nodeName w"
| "exec (OpRemovePod ks namespace podName) w = RemovePod ks namespace podName w"

fun run :: "op list \<Rightarrow> world \<Rightarrow> world" where
  "run [] w = w"
| "run (x # xs) w = run xs (snd (exec x w))"

text \<open>
  \<open>perform_all\<close> performs any sequence of calls of the snapshot's state-changing methods,
  \<open>Fork\<close>, \<open>Revert\<close>, \<open>Commit\<close> and \<open>Clear\<close> included: the worlds it yields from the
  constructor's are the worlds a caller can reach.
\<close>

datatype call =
    Mutate op
  | CallFork "string list"
  | CallRevert
  | CallCommit
  | CallClear

fun perform :: "call \<Rightarrow> world \<Rightarrow> error option \<times> world" where
  "perform (Mutate x) w = exec x w"
| "perform (CallFork ks) w = Fork ks w"
| "perform CallRevert w = Revert w"
| "perform CallCommit w = Commit w"
| "perform CallClear w = Clear w"

fun perform_all :: "call list \<Rightarrow> world \<Rightarrow> world" where
  "perform_all [] w = w"
| "perform_all (c # cs) w = perform_all cs (snd (perform c w))"

section \<open>Well-formed worlds\<close>

text \<open>
  \<open>data_ok d h\<close>: every pointer in the map of \<open>d\<close> has been allocated in \<open>h\<close>, and the object
  it points to holds a node whose name is the key. \<open>valid w\<close>: both the base data and the
  forked data (when there is one) are so, and no \<open>NodeInfo\<close> object is shared between the
  two. Every world a caller can reach is valid (\<open>valid_reachable\<close> below).
\<close>

definition data_ok :: "internalBasicSnapshotData \<Rightarrow> heap \<Rightarrow> bool" where
  "data_ok d h \<longleftrightarrow>
     (\<forall>k a. nodeInfoMap d k = Some a \<longrightarrow>
        a < allocated h \<and> map_option NodeName (node (objects h a)) = Some k)"

definition valid :: "world \<Rightarrow> bool" where
  "valid w \<longleftrightarrow>
     data_ok (baseData (fst w)) (snd w) \<and>
     (\<forall>d. forkedData (fst w) = Some d \<longrightarrow>
        data_ok d (snd w) \<and>
        (\<forall>k k' a. nodeInfoMap d k = Some a \<longrightarrow> nodeInfoMap (baseData (fst w)) k' \<noteq> Some a))"

text \<open>
  \<open>view d h\<close> is what the data show to a reader: the node record behind each name.
\<close>

definition view :: "internalBasicSnapshotData \<Rightarrow> heap \<Rightarrow> (string \<rightharpoonup> NodeInfo)" where
  "view d h = (\<lambda>k. map_option (objects h) (nodeInfoMap d k))"

text \<open>
  \<open>mutates d h d' h'\<close> bounds what one mutating method of the data may do: the heap only
  grows, an allocated object that the data do not point to keeps its contents, well-formed
  data stay well-formed, and every pointer of the new map is one of the old map or newly
  allocated.
\<close>

definition mutates ::
  "internalBasicSnapshotData \<Rightarrow> heap \<Rightarrow> internalBasicSnapshotData \<Rightarrow> heap \<Rightarrow> bool" where
  "mutates d h d' h' \<longleftrightarrow>
     allocated h \<le> allocated h' \<and>
     (\<forall>b. b < allocated h \<and> b \<notin> ran (nodeInfoMap d) \<longrightarrow> objects h' b = objects h b) \<and>
     (data_ok d h \<longrightarrow> data_ok d' h') \<and>
     (\<forall>k a. nodeInfoMap d' k = Some a \<longrightarrow> a \<in> ran (nodeInfoMap d) \<or> allocated h \<le> a)"

section \<open>Example objects\<close>

definition podA :: Pod where
  "podA = \<lparr>PodNamespace = ''default'', PodName = ''a'', PodLabels = [(''app'', ''web'')],
            PodAffinity = False\<rparr>"

definition podB :: Pod where
  "podB = \<lparr>PodNamespace = ''default'', PodName = ''b'', PodLabels = [], PodAffinity = True\<rparr>"

definition node1 :: Node where
  "node1 = \<lparr>NodeName = ''n1'', NodeLabels = []\<rparr>"

definition node2 :: Node where
  "node2 = \<lparr>NodeName = ''n2'', NodeLabels = [(''zone'', ''a'')]\<rparr>"

definition any_pod :: "Pod \<Rightarrow> bool" where
  "any_pod pod = True"

definition any_labels :: "labels \<Rightarrow> bool" where
  "any_labels ls = True"

definition app_web :: "labels \<Rightarrow> bool" where
  "app_web ls \<longleftrightarrow> (''app'', ''web'') \<in> set ls"

text \<open>One node with one pod.\<close>

definition one_pod_world :: world where
  "one_pod_world = run [OpAddNode node1, OpAddPod podA ''n1''] NewBasicClusterSnapshot"

text \<open>Two nodes with one pod each.\<close>

definition two_node_world :: world where
  "two_node_world =
     run [OpAddNode node1, OpAddNode node2, OpAddPod podA ''n1'', OpAddPod podB ''n2'']
       NewBasicClusterSnapshot"

text \<open>The same pod added to two nodes, and added twice to one node: \<open>addPod\<close> accepts both.\<close>

definition shared_pod_world :: world where
  "shared_pod_world =
     run [OpAddNode node1, OpAddNode node2, OpAddPod podA ''n1'', OpAddPod podA ''n2'']
       NewBasicClusterSnapshot"

definition double_pod_world :: world where
  "double_pod_world =
     run [OpAddNode node1, OpAddPod podA ''n1'', OpAddPod podA ''n1''] NewBasicClusterSnapshot"

definition dup_world :: world where
  "dup_world =
     run [OpAddNode node1, OpAddNode node2, OpAddPod podB ''n1'', OpAddPod podA ''n1'',
          OpAddPod podA ''n2''] NewBasicClusterSnapshot"

section \<open>Pod identity\<close>

text \<open>The test of the inner loop of \<open>removePod\<close>: the pod has this namespace and this name.\<close>

definition pod_matches :: "string \<Rightarrow> string \<Rightarrow> Pod \<Rightarrow> bool" where
  "pod_matches namespace podName pod \<longleftrightarrow> PodNamespace pod = namespace \<and> PodName pod = podName"

section \<open>Auxiliary facts\<close>

lemma set_range_map: "set (range_map ks m) = {(k, v). k \<in> set ks \<and> m k = Some v}"
  by (induction ks) (auto split: option.splits)

lemma set_range_map_enumerates:
  "enumerates ks m \<Longrightarrow> set (range_map ks m) = {(k, v). m k = Some v}"
  by (auto simp: set_range_map enumerates_def)

lemma range_map_map_option:
  "range_map ks (\<lambda>k. map_option f (m k)) = map (\<lambda>(k, v). (k, f v)) (range_map ks m)"
  by (induction ks) (auto split: option.splits)

lemma getAllNodes_view:
  "getAllNodes ks d h = (map (\<lambda>(k, ni). NodeInfo_Node ni) (range_map ks (view d h)), None)"
  by (simp add: getAllNodes_def view_def range_map_map_option case_prod_unfold o_def)

lemma getAllPods_view:
  "getAllPods ks d h = (concat (map (\<lambda>(k, ni). NodeInfo_Pods ni) (range_map ks (view d h))), None)"
  by (simp add: getAllPods_def view_def range_map_map_option case_prod_unfold o_def)

lemma enumerates_view: "enumerates ks (view d h) = enumerates ks (nodeInfoMap d)"
  by (auto simp: enumerates_def view_def dom_def)

lemma set_getAllNodes:
  "enumerates ks (nodeInfoMap d) \<Longrightarrow>
     set (fst (getAllNodes ks d h)) = {NodeInfo_Node ni | k ni. view d h k = Some ni}"
  by (force simp: getAllNodes_view set_range_map_enumerates enumerates_view)

lemma set_getAllPods:
  "enumerates ks (nodeInfoMap d) \<Longrightarrow>
     set (fst (getAllPods ks d h)) = {p. \<exists>k ni. view d h k = Some ni \<and> p \<in> set (NodeInfo_Pods ni)}"
  by (force simp: getAllPods_view set_range_map_enumerates enumerates_view)

lemma mutates_refl: "mutates d h d h"
  by (auto simp: mutates_def ran_def)

lemma data_ok_alloc:
  assumes "data_ok d h" and "nodeInfoMap d (NodeName n) = None" and "node ni = Some n"
  shows "data_ok (d\<lparr>nodeInfoMap := (nodeInfoMap d)(NodeName n \<mapsto> allocated h)\<rparr>)
           \<lparr>objects = (objects h)(allocated h := ni), allocated = Suc (allocated h)\<rparr>"
  unfolding data_ok_def
proof (intro allI impI)
  fix k a
  assume m: "nodeInfoMap (d\<lparr>nodeInfoMap := (nodeInfoMap d)(NodeName n \<mapsto> allocated h)\<rparr>) k = Some a"
  show "a < allocated \<lparr>objects = (objects h)(allocated h := ni), allocated = Suc (allocated h)\<rparr> \<and>
        map_option NodeName
          (node (objects \<lparr>objects = (objects h)(allocated h := ni), allocated = Suc (allocated h)\<rparr> a)) =
        Some k"
  proof (cases "k = NodeName n")
    case True
    with m assms(3) show ?thesis by simp
  next
    case False
    with m have "nodeInfoMap d k = Some a" by simp
    with assms(1) have "a < allocated h" "map_option NodeName (node (objects h a)) = Some k"
      by (auto simp: data_ok_def)
    then show ?thesis by simp
  qed
qed

lemma mutates_addNode: "addNode n d h = (err, d', h') \<Longrightarrow> mutates d h d' h'"
  by (auto simp: addNode_def NodeInfo_SetNode_def NewNodeInfo_def alloc_def mutates_refl
      mutates_def data_ok_alloc intro: ranI split: if_splits)

lemma mutates_removeNode: "removeNode nodeName d h = (err, d', h') \<Longrightarrow> mutates d h d' h'"
  by (auto simp: removeNode_def mutates_def data_ok_def ran_def split: if_splits)

lemma mutates_addPod: "addPod pod nodeName d h = (err, d', h') \<Longrightarrow> mutates d h d' h'"
  by (auto simp: addPod_def mutates_def data_ok_def ran_def store_def NodeInfo_AddPod_def
      split: option.splits)

lemma removePod_loop_cases:
  "removePod_loop kvs namespace podName h = (err, h') \<Longrightarrow>
     h' = h \<or> (\<exists>k a ni. (k, a) \<in> set kvs \<and> h' = store a ni h \<and> node ni = node (objects h a))"
proof (induction kvs)
  case Nil
  then show ?case by simp
next
  case (Cons kv kvs)
  obtain k a where kv: "kv = (k, a)" by (cases kv)
  show ?case
  proof (cases "find (\<lambda>pod. PodNamespace pod = namespace \<and> PodName pod = podName)
                  (NodeInfo_Pods (objects h a))")
    case None
    with Cons kv show ?thesis by auto
  next
    case (Some pod)
    show ?thesis
    proof (cases "pod \<in> set (pods (objects h a))")
      case True
      with Some Cons.prems kv
      have "h' = store a ((objects h a)\<lparr>pods := remove1 pod (pods (objects h a))\<rparr>) h"
        by (simp add: NodeInfo_RemovePod_def)
      moreover have "node ((objects h a)\<lparr>pods := remove1 pod (pods (objects h a))\<rparr>) = node (objects h a)"
        by simp
      ultimately show ?thesis using kv by (intro disjI2 exI[of _ k] exI[of _ a]) auto
    next
      case False
      with Some Cons.prems kv show ?thesis by (simp add: NodeInfo_RemovePod_def)
    qed
  qed
qed

lemma mutates_removePod: "removePod ks namespace podName d h = (err, d', h') \<Longrightarrow> mutates d h d' h'"
proof -
  assume a: "removePod ks namespace podName d h = (err, d', h')"
  then obtain e where l: "removePod_loop (range_map ks (nodeInfoMap d)) namespace podName h = (e, h')"
    and d': "d' = d"
    by (auto simp: removePod_def split: prod.splits)
  from removePod_loop_cases[OF l] show ?thesis
  proof
    assume "h' = h" with d' show ?thesis by (simp add: mutates_refl)
  next
    assume "\<exists>k a ni. (k, a) \<in> set (range_map ks (nodeInfoMap d)) \<and> h' = store a ni h \<and>
       node ni = node (objects h a)"
    then obtain k a ni where "nodeInfoMap d k = Some a" "h' = store a ni h" "node ni = node (objects h a)"
      by (auto simp: set_range_map)
    with d' show ?thesis
      by (auto simp: mutates_def data_ok_def ran_def store_def)
  qed
qed

lemma mutates_fresh:
  "mutates d h d' h' \<Longrightarrow> nodeInfoMap d' k = Some a \<Longrightarrow> a < allocated h \<Longrightarrow>
     a \<in> ran (nodeInfoMap d)"
  unfolding mutates_def by (meson not_less)

lemma mutates_frame:
  "mutates d h d' h' \<Longrightarrow> b < allocated h \<Longrightarrow> b \<notin> ran (nodeInfoMap d) \<Longrightarrow>
     objects h' b = objects h b"
  unfolding mutates_def by blast

lemma mutates_allocated: "mutates d h d' h' \<Longrightarrow> allocated h \<le> allocated h'"
  unfolding mutates_def by blast

lemma mutates_data_ok: "mutates d h d' h' \<Longrightarrow> data_ok d h \<Longrightarrow> data_ok d' h'"
  unfolding mutates_def by blast

lemma mutates_world:
  assumes f: "\<And>d h err d' h'. f d h = (err, d', h') \<Longrightarrow> mutates d h d' h'"
    and v: "valid w"
  shows "valid (snd (onInternalData f w))"
    and "forkedData (fst w) \<noteq> None \<Longrightarrow>
           forkedData (fst (snd (onInternalData f w))) \<noteq> None \<and>
           baseData (fst (snd (onInternalData f w))) = baseData (fst w) \<and>
           view (baseData (fst w)) (snd (snd (onInternalData f w))) = view (baseData (fst w)) (snd w)"
    and "forkedData (fst w) = None \<Longrightarrow> forkedData (fst (snd (onInternalData f w))) = None"
proof -
  obtain snapshot h where w: "w = (snapshot, h)" by (cases w)
  obtain err d' h' where r: "f (getInternalData snapshot) h = (err, d', h')"
    by (cases "f (getInternalData snapshot) h")
  have res: "snd (onInternalData f w) = (setInternalData d' snapshot, h')"
    using w r by (simp add: onInternalData_def)
  have m: "mutates (getInternalData snapshot) h d' h'" using f r .
  show "forkedData (fst w) = None \<Longrightarrow> forkedData (fst (snd (onInternalData f w))) = None"
    using w res by (simp add: setInternalData_def)
  show "valid (snd (onInternalData f w))"
  proof (cases "forkedData snapshot")
    case None
    then have g: "getInternalData snapshot = baseData snapshot"
      by (simp add: getInternalData_def)
    from v w have "data_ok (baseData snapshot) h" by (simp add: valid_def)
    with m g have "data_ok d' h'" by (simp add: mutates_data_ok)
    with None res show ?thesis by (simp add: valid_def setInternalData_def)
  next
    case (Some df)
    then have g: "getInternalData snapshot = df" by (simp add: getInternalData_def)
    from v w Some have okb: "data_ok (baseData snapshot) h" and okf: "data_ok df h"
      and dis: "\<And>k k' a. nodeInfoMap df k = Some a \<Longrightarrow> nodeInfoMap (baseData snapshot) k' \<noteq> Some a"
      by (auto simp: valid_def)
    from m g okf have okf': "data_ok d' h'" by (simp add: mutates_data_ok)
    have okb': "data_ok (baseData snapshot) h'"
      unfolding data_ok_def
    proof (intro allI impI)
      fix k a assume ka: "nodeInfoMap (baseData snapshot) k = Some a"
      with okb have a: "a < allocated h" "map_option NodeName (node (objects h a)) = Some k"
        by (auto simp: data_ok_def)
      from ka dis have "a \<notin> ran (nodeInfoMap df)" by (auto simp: ran_def)
      with m g a have "objects h' a = objects h a" "allocated h \<le> allocated h'"
        by (simp_all add: mutates_frame mutates_allocated)
      with a show "a < allocated h' \<and> map_option NodeName (node (objects h' a)) = Some k"
        by simp
    qed
    have dis': "nodeInfoMap (baseData snapshot) k' \<noteq> Some a" if "nodeInfoMap d' k = Some a" for k k' a
    proof
      assume b: "nodeInfoMap (baseData snapshot) k' = Some a"
      with okb have "a < allocated h" by (auto simp: data_ok_def)
      with m g that have "a \<in> ran (nodeInfoMap df)" using mutates_fresh by blast
      then obtain k2 where "nodeInfoMap df k2 = Some a" by (auto simp: ran_def)
      with dis b show False by blast
    qed
    from Some res okb' okf' dis' show ?thesis
      by (auto simp: valid_def setInternalData_def)
  qed
  show "forkedData (fst (snd (onInternalData f w))) \<noteq> None \<and>
        baseData (fst (snd (onInternalData f w))) = baseData (fst w) \<and>
        view (baseData (fst w)) (snd (snd (onInternalData f w))) = view (baseData (fst w)) (snd w)"
    if fk: "forkedData (fst w) \<noteq> None"
  proof -
    from fk w obtain df where Some: "forkedData snapshot = Some df" by auto
    then have g: "getInternalData snapshot = df" by (simp add: getInternalData_def)
    from v w Some have okb: "data_ok (baseData snapshot) h"
      and dis: "\<And>k k' a. nodeInfoMap df k = Some a \<Longrightarrow> nodeInfoMap (baseData snapshot) k' \<noteq> Some a"
      by (auto simp: valid_def)
    have "view (baseData snapshot) h' k = view (baseData snapshot) h k" for k
    proof (cases "nodeInfoMap (baseData snapshot) k")
      case None
      then show ?thesis by (simp add: view_def)
    next
      case (Some a)
      with okb have a: "a < allocated h" by (auto simp: data_ok_def)
      from Some dis have "a \<notin> ran (nodeInfoMap df)" by (auto simp: ran_def)
      with m g a have "objects h' a = objects h a" by (simp add: mutates_frame)
      with Some show ?thesis by (simp add: view_def)
    qed
    then have "view (baseData snapshot) h' = view (baseData snapshot) h" by (rule ext)
    with Some res w show ?thesis by (simp add: setInternalData_def)
  qed
qed

lemma exec_mutates:
  "\<exists>f. exec x = onInternalData f \<and> (\<forall>d h err d' h'. f d h = (err, d', h') \<longrightarrow> mutates d h d' h')"
proof (cases x)
  case (OpAddNode n)
  then have "exec x = onInternalData (addNode n)" by (auto simp: AddNode_def)
  then show ?thesis using mutates_addNode by blast
next
  case (OpRemoveNode nodeName)
  then have "exec x = onInternalData (removeNode nodeName)" by (auto simp: RemoveNode_def)
  then show ?thesis using mutates_removeNode by blast
next
  case (OpAddPod pod nodeName)
  then have "exec x = onInternalData (addPod pod nodeName)" by (auto simp: AddPod_def)
  then show ?thesis using mutates_addPod by blast
next
  case (OpRemovePod ks namespace podName)
  then have "exec x = onInternalData (removePod ks namespace podName)" by (auto simp: RemovePod_def)
  then show ?thesis using mutates_removePod by blast
qed

lemma valid_exec: "valid w \<Longrightarrow> valid (snd (exec x w))"
  using exec_mutates[of x] mutates_world(1) by metis

lemma unforked_exec: "valid w \<Longrightarrow> forkedData (fst w) = None \<Longrightarrow> forkedData (fst (snd (exec x w))) = None"
  using exec_mutates[of x] mutates_world(3) by metis

lemma forked_exec:
  "valid w \<Longrightarrow> forkedData (fst w) \<noteq> None \<Longrightarrow>
     forkedData (fst (snd (exec x w))) \<noteq> None \<and>
     baseData (fst (snd (exec x w))) = baseData (fst w) \<and>
     view (baseData (fst w)) (snd (snd (exec x w))) = view (baseData (fst w)) (snd w)"
  using exec_mutates[of x] mutates_world(2) by metis

lemma valid_run: "valid w \<Longrightarrow> valid (run xs w)"
  by (induction xs arbitrary: w) (simp_all add: valid_exec)

lemma unforked_run: "valid w \<Longrightarrow> forkedData (fst w) = None \<Longrightarrow> forkedData (fst (run xs w)) = None"
  by (induction xs arbitrary: w) (simp_all add: valid_exec unforked_exec)

lemma forked_run:
  "valid w \<Longrightarrow> forkedData (fst w) \<noteq> None \<Longrightarrow>
     forkedData (fst (run xs w)) \<noteq> None \<and>
     baseData (fst (run xs w)) = baseData (fst w) \<and>
     view (baseData (fst w)) (snd (run xs w)) = view (baseData (fst w)) (snd w)"
proof (induction xs arbitrary: w)
  case Nil
  then show ?case by simp
next
  case (Cons x xs)
  from forked_exec[OF Cons.prems, of x] valid_exec[OF Cons.prems(1), of x]
    Cons.IH[of "snd (exec x w)"]
  show ?case by simp
qed

lemma valid_New: "valid NewBasicClusterSnapshot"
  by (simp add: NewBasicClusterSnapshot_def Clear_def valid_def data_ok_def
      newInternalBasicSnapshotData_def)

lemma unforked_New: "forkedData (fst NewBasicClusterSnapshot) = None"
  by (simp add: NewBasicClusterSnapshot_def Clear_def)

lemma NodeInfo_Clone_eq [simp]: "NodeInfo_Clone ni = ni"
  by (simp add: NodeInfo_Clone_def)

lemma clone_loop_props:
  "clone_loop kvs cl h = (cl', h') \<Longrightarrow> \<forall>(k, v) \<in> set kvs. v < allocated h \<Longrightarrow>
   distinct (map fst kvs) \<Longrightarrow>
     allocated h' = allocated h + length kvs \<and>
     (\<forall>b. b < allocated h \<longrightarrow> objects h' b = objects h b) \<and>
     (\<forall>k. k \<notin> fst ` set kvs \<longrightarrow> cl' k = cl k) \<and>
     (\<forall>(k, v) \<in> set kvs.
        \<exists>a. cl' k = Some a \<and> allocated h \<le> a \<and> a < allocated h' \<and> objects h' a = objects h v)"
proof (induction kvs arbitrary: cl h)
  case Nil
  then show ?case by simp
next
  case (Cons kv kvs)
  obtain k0 v0 where kv: "kv = (k0, v0)" by (cases kv)
  define h1 where
    "h1 = \<lparr>objects = (objects h)(allocated h := objects h v0), allocated = Suc (allocated h)\<rparr>"
  define cl1 where "cl1 = cl(k0 \<mapsto> allocated h)"
  have "clone_loop (kv # kvs) cl h = clone_loop kvs cl1 h1"
    by (simp add: kv alloc_def h1_def cl1_def)
  with Cons.prems(1) have r: "clone_loop kvs cl1 h1 = (cl', h')" by simp
  have v0: "v0 < allocated h" using Cons.prems(2) kv by simp
  have bb: "\<forall>(k, v) \<in> set kvs. v < allocated h1"
    using Cons.prems(2) by (fastforce simp: h1_def less_Suc_eq)
  have d: "distinct (map fst kvs)" and k0: "k0 \<notin> fst ` set kvs"
    using Cons.prems(3) kv by simp_all
  from Cons.IH[OF r bb d] have
    al: "allocated h' = allocated h1 + length kvs"
    and fr: "\<And>b. b < allocated h1 \<Longrightarrow> objects h' b = objects h1 b"
    and ot: "\<And>k. k \<notin> fst ` set kvs \<Longrightarrow> cl' k = cl1 k"
    and cp: "\<And>k v. (k, v) \<in> set kvs \<Longrightarrow>
               \<exists>a. cl' k = Some a \<and> allocated h1 \<le> a \<and> a < allocated h' \<and> objects h' a = objects h1 v"
    by blast+
  have 1: "allocated h' = allocated h + length (kv # kvs)" using al by (simp add: h1_def)
  have 2: "objects h' b = objects h b" if "b < allocated h" for b
    using fr[of b] that by (simp add: h1_def)
  have 3: "cl' k = cl k" if "k \<notin> fst ` set (kv # kvs)" for k
    using ot[of k] that by (simp add: cl1_def kv)
  have 4: "\<exists>a. cl' k = Some a \<and> allocated h \<le> a \<and> a < allocated h' \<and> objects h' a = objects h v"
    if "(k, v) \<in> set (kv # kvs)" for k v
  proof (cases "(k, v) \<in> set kvs")
    case True
    from cp[OF True] obtain a where
      a: "cl' k = Some a" "allocated h1 \<le> a" "a < allocated h'" "objects h' a = objects h1 v"
      by blast
    from True Cons.prems(2) have "v < allocated h" by auto
    with a show ?thesis by (auto simp: h1_def)
  next
    case False
    with that kv have e: "k = k0" "v = v0" by auto
    from ot[OF k0] have c: "cl' k0 = Some (allocated h)" by (simp add: cl1_def)
    have "objects h' (allocated h) = objects h1 (allocated h)" by (rule fr) (simp add: h1_def)
    then have "objects h' (allocated h) = objects h v0" by (simp add: h1_def)
    with c e al show ?thesis by (simp add: h1_def)
  qed
  from 1 2 3 4 show ?case by blast
qed

lemma distinct_range_map: "distinct ks \<Longrightarrow> distinct (map fst (range_map ks m))"
  by (induction ks) (auto simp: set_range_map split: option.splits)

text \<open>What \<open>clone\<close> returns for data whose pointers are all allocated.\<close>

lemma clone_props:
  assumes c: "clone ks d h = (d', h')"
    and ok: "\<forall>k a. nodeInfoMap d k = Some a \<longrightarrow> a < allocated h"
    and en: "enumerates ks (nodeInfoMap d)"
  shows "(\<forall>b. b < allocated h \<longrightarrow> objects h' b = objects h b) \<and>
         allocated h \<le> allocated h' \<and>
         (\<forall>k. nodeInfoMap d k = None \<longrightarrow> nodeInfoMap d' k = None) \<and>
         (\<forall>k a. nodeInfoMap d k = Some a \<longrightarrow>
            (\<exists>a'. nodeInfoMap d' k = Some a' \<and> allocated h \<le> a' \<and> a' < allocated h' \<and>
                  objects h' a' = objects h a))"
proof -
  let ?kvs = "range_map ks (nodeInfoMap d)"
  from c obtain cl' where l: "clone_loop ?kvs Map.empty h = (cl', h')" and d': "d' = \<lparr>nodeInfoMap = cl'\<rparr>"
    by (auto simp: clone_def split: prod.splits)
  have b: "\<forall>(k, v) \<in> set ?kvs. v < allocated h"
    using ok by (auto simp: set_range_map)
  have di: "distinct (map fst ?kvs)" using en by (simp add: distinct_range_map enumerates_def)
  from clone_loop_props[OF l b di] have
    P1: "allocated h' = allocated h + length ?kvs"
    and P2: "\<And>b. b < allocated h \<Longrightarrow> objects h' b = objects h b"
    and P3: "\<And>k. k \<notin> fst ` set ?kvs \<Longrightarrow> cl' k = None"
    and P4: "\<And>k v. (k, v) \<in> set ?kvs \<Longrightarrow>
               \<exists>a. cl' k = Some a \<and> allocated h \<le> a \<and> a < allocated h' \<and> objects h' a = objects h v"
    by (simp, simp, simp, blast)
  have 3: "nodeInfoMap d' k = None" if "nodeInfoMap d k = None" for k
  proof -
    from that have "k \<notin> fst ` set ?kvs" by (auto simp: set_range_map)
    from P3[OF this] d' show ?thesis by simp
  qed
  have 4: "\<exists>a'. nodeInfoMap d' k = Some a' \<and> allocated h \<le> a' \<and> a' < allocated h' \<and>
                objects h' a' = objects h a" if "nodeInfoMap d k = Some a" for k a
  proof -
    from that en have "(k, a) \<in> set ?kvs" by (auto simp: set_range_map_enumerates)
    from P4[OF this] d' show ?thesis by simp
  qed
  from P1 P2 3 4 show ?thesis by simp
qed

lemma Fork_props:
  assumes v: "valid w" and u: "forkedData (fst w) = None"
    and en: "enumerates ks (nodeInfoMap (baseData (fst w)))"
  shows "fst (Fork ks w) = None"
    and "valid (snd (Fork ks w))"
    and "baseData (fst (snd (Fork ks w))) = baseData (fst w)"
    and "view (baseData (fst w)) (snd (snd (Fork ks w))) = view (baseData (fst w)) (snd w)"
    and "\<exists>d. forkedData (fst (snd (Fork ks w))) = Some d \<and>
             view d (snd (snd (Fork ks w))) = view (baseData (fst w)) (snd w)"
proof -
  obtain snapshot h where w: "w = (snapshot, h)" by (cases w)
  obtain d' h' where c: "clone ks (baseData snapshot) h = (d', h')"
    by (cases "clone ks (baseData snapshot) h")
  from w u c have r: "Fork ks w = (None, (snapshot\<lparr>forkedData := Some d'\<rparr>, h'))"
    by (simp add: Fork_def)
  from v w have okb: "data_ok (baseData snapshot) h" by (simp add: valid_def)
  then have ok': "\<forall>k a. nodeInfoMap (baseData snapshot) k = Some a \<longrightarrow> a < allocated h"
    by (simp add: data_ok_def)
  then have ok: "\<And>k a. nodeInfoMap (baseData snapshot) k = Some a \<Longrightarrow> a < allocated h"
    by blast
  from en w have en': "enumerates ks (nodeInfoMap (baseData snapshot))" by simp
  have P1: "\<And>b. b < allocated h \<Longrightarrow> objects h' b = objects h b"
    and P2: "allocated h \<le> allocated h'"
    and P3: "\<And>k. nodeInfoMap (baseData snapshot) k = None \<Longrightarrow> nodeInfoMap d' k = None"
    and P4: "\<And>k a. nodeInfoMap (baseData snapshot) k = Some a \<Longrightarrow>
           \<exists>a'. nodeInfoMap d' k = Some a' \<and> allocated h \<le> a' \<and> a' < allocated h' \<and>
                objects h' a' = objects h a"
    using clone_props[OF c ok' en'] by blast+
  show "fst (Fork ks w) = None" using r by simp
  show "baseData (fst (snd (Fork ks w))) = baseData (fst w)" using r w by simp
  have vb: "view (baseData snapshot) h' k = view (baseData snapshot) h k" for k
    using ok[of k] P1 by (cases "nodeInfoMap (baseData snapshot) k") (auto simp: view_def)
  then show "view (baseData (fst w)) (snd (snd (Fork ks w))) = view (baseData (fst w)) (snd w)"
    using r w by auto
  have vf: "view d' h' k = view (baseData snapshot) h k" for k
  proof (cases "nodeInfoMap (baseData snapshot) k")
    case None
    with P3[OF None] show ?thesis by (simp add: view_def)
  next
    case (Some a)
    with P4[OF Some] show ?thesis by (auto simp: view_def)
  qed
  then show "\<exists>d. forkedData (fst (snd (Fork ks w))) = Some d \<and>
             view d (snd (snd (Fork ks w))) = view (baseData (fst w)) (snd w)"
    using r w by auto
  have okb': "data_ok (baseData snapshot) h'"
    unfolding data_ok_def
  proof (intro allI impI)
    fix k a assume ka: "nodeInfoMap (baseData snapshot) k = Some a"
    with okb have "a < allocated h" "map_option NodeName (node (objects h a)) = Some k"
      by (auto simp: data_ok_def)
    with P1[of a] P2
    show "a < allocated h' \<and> map_option NodeName (node (objects h' a)) = Some k" by simp
  qed
  have okf': "data_ok d' h'"
    unfolding data_ok_def
  proof (intro allI impI)
    fix k a' assume ka: "nodeInfoMap d' k = Some a'"
    then obtain a where a: "nodeInfoMap (baseData snapshot) k = Some a"
      using P3[of k] by (cases "nodeInfoMap (baseData snapshot) k") auto
    from P4[OF a] ka have "a' < allocated h'" "objects h' a' = objects h a" by auto
    moreover from okb a have "map_option NodeName (node (objects h a)) = Some k"
      by (auto simp: data_ok_def)
    ultimately show "a' < allocated h' \<and> map_option NodeName (node (objects h' a')) = Some k"
      by simp
  qed
  have dis: "nodeInfoMap (baseData snapshot) k' \<noteq> Some a'" if "nodeInfoMap d' k = Some a'" for k k' a'
  proof
    assume b: "nodeInfoMap (baseData snapshot) k' = Some a'"
    from that obtain a where a: "nodeInfoMap (baseData snapshot) k = Some a"
      using P3[of k] by (cases "nodeInfoMap (baseData snapshot) k") auto
    from P4[OF a] that have "allocated h \<le> a'" by auto
    with ok[OF b] show False by simp
  qed
  show "valid (snd (Fork ks w))"
    using r okb' okf' dis by (auto simp: valid_def)
qed

lemma valid_Commit: "valid w \<Longrightarrow> valid (snd (Commit w))"
  by (cases w) (auto simp: Commit_def valid_def split: option.splits)

lemma valid_Revert: "valid w \<Longrightarrow> valid (snd (Revert w))"
  by (cases w) (auto simp: Revert_def valid_def)

lemma valid_Clear: "valid (snd (Clear w))"
  by (cases w) (simp add: Clear_def valid_def data_ok_def newInternalBasicSnapshotData_def)

lemma GetAllNodes_view:
  "GetAllNodes ks w =
     (map (\<lambda>(k, ni). NodeInfo_Node ni) (range_map ks (view (getInternalData (fst w)) (snd w))), None)"
  by (cases w) (simp add: GetAllNodes_def getAllNodes_view)

lemma GetAllPods_view:
  "GetAllPods ks w =
     (concat (map (\<lambda>(k, ni). NodeInfo_Pods ni) (range_map ks (view (getInternalData (fst w)) (snd w)))),
      None)"
  by (cases w) (simp add: GetAllPods_def getAllPods_view)

lemma set_GetAllNodes:
  "enumerates ks (nodeInfoMap (getInternalData (fst w))) \<Longrightarrow>
     set (fst (GetAllNodes ks w)) =
       {NodeInfo_Node ni | k ni. view (getInternalData (fst w)) (snd w) k = Some ni}"
  by (cases w) (simp add: GetAllNodes_def set_getAllNodes)

lemma set_GetAllPods:
  "enumerates ks (nodeInfoMap (getInternalData (fst w))) \<Longrightarrow>
     set (fst (GetAllPods ks w)) =
       {p. \<exists>k ni. view (getInternalData (fst w)) (snd w) k = Some ni \<and> p \<in> set (NodeInfo_Pods ni)}"
  by (cases w) (simp add: GetAllPods_def set_getAllPods)

text \<open>Two worlds whose active data show the same node records answer the bulk reads alike.\<close>

lemma same_view_reads:
  assumes "view (getInternalData (fst w')) (snd w') = view (getInternalData (fst w)) (snd w)"
  shows "GetAllNodes k w' = GetAllNodes k w"
    and "GetAllPods k w' = GetAllPods k w"
    and "enumerates ka (nodeInfoMap (getInternalData (fst w))) \<Longrightarrow>
         enumerates kb (nodeInfoMap (getInternalData (fst w'))) \<Longrightarrow>
           set (fst (GetAllNodes kb w')) = set (fst (GetAllNodes ka w)) \<and>
           set (fst (GetAllPods kb w')) = set (fst (GetAllPods ka w))"
proof -
  show "GetAllNodes k w' = GetAllNodes k w" using assms by (simp add: GetAllNodes_view)
  show "GetAllPods k w' = GetAllPods k w" using assms by (simp add: GetAllPods_view)
  show "set (fst (GetAllNodes kb w')) = set (fst (GetAllNodes ka w)) \<and>
        set (fst (GetAllPods kb w')) = set (fst (GetAllPods ka w))"
    if "enumerates ka (nodeInfoMap (getInternalData (fst w)))"
      and "enumerates kb (nodeInfoMap (getInternalData (fst w')))"
    using that assms by (simp add: set_GetAllNodes set_GetAllPods)
qed

lemmas snapshot_eval =
  NewBasicClusterSnapshot_def Clear_def newInternalBasicSnapshotData_def empty_heap_def
  AddNode_def RemoveNode_def AddPod_def RemovePod_def onInternalData_def getInternalData_def
  setInternalData_def addNode_def removeNode_def addPod_def removePod_def alloc_def store_def
  NodeInfo_SetNode_def NewNodeInfo_def NodeInfo_AddPod_def NodeInfo_RemovePod_def
  NodeInfo_Pods_def NodeInfo_Node_def NodeInfo_PodsWithAffinity_def
  Fork_def Revert_def Commit_def clone_def GetAllNodes_def GetAllPods_def getAllNodes_def
  getAllPods_def enumerates_def podA_def podB_def node1_def node2_def

lemma setInternalData_getInternalData [simp]:
  "setInternalData (getInternalData snapshot) snapshot = snapshot"
  by (simp add: setInternalData_def getInternalData_def split: option.splits)

lemma clone_loop_any_order:
  "clone_loop kvs cl h = (cl', h') \<Longrightarrow> \<forall>(k, v) \<in> set kvs. v < allocated h \<Longrightarrow>
     allocated h \<le> allocated h' \<and>
     (\<forall>b. b < allocated h \<longrightarrow> objects h' b = objects h b) \<and>
     (\<forall>k a. cl' k = Some a \<longrightarrow>
        cl k = Some a \<or>
        (allocated h \<le> a \<and> a < allocated h' \<and> (\<exists>v. (k, v) \<in> set kvs \<and> objects h' a = objects h v)))"
proof (induction kvs arbitrary: cl h)
  case Nil
  then show ?case by simp
next
  case (Cons kv kvs)
  obtain k0 v0 where kv: "kv = (k0, v0)" by (cases kv)
  define h1 where
    "h1 = \<lparr>objects = (objects h)(allocated h := objects h v0), allocated = Suc (allocated h)\<rparr>"
  define cl1 where "cl1 = cl(k0 \<mapsto> allocated h)"
  have "clone_loop (kv # kvs) cl h = clone_loop kvs cl1 h1"
    by (simp add: kv alloc_def h1_def cl1_def)
  with Cons.prems(1) have r: "clone_loop kvs cl1 h1 = (cl', h')" by simp
  have bb: "\<forall>(k, v) \<in> set kvs. v < allocated h1"
    using Cons.prems(2) by (fastforce simp: h1_def less_Suc_eq)
  from Cons.IH[OF r bb] have
    al: "allocated h1 \<le> allocated h'"
    and fr: "\<And>b. b < allocated h1 \<Longrightarrow> objects h' b = objects h1 b"
    and en: "\<And>k a. cl' k = Some a \<Longrightarrow>
               cl1 k = Some a \<or>
               (allocated h1 \<le> a \<and> a < allocated h' \<and> (\<exists>v. (k, v) \<in> set kvs \<and> objects h' a = objects h1 v))"
    by blast+
  have 1: "allocated h \<le> allocated h'" using al by (simp add: h1_def)
  have 2: "objects h' b = objects h b" if "b < allocated h" for b
    using fr[of b] that by (simp add: h1_def)
  have 3: "cl k = Some a \<or>
        (allocated h \<le> a \<and> a < allocated h' \<and>
         (\<exists>v. (k, v) \<in> set (kv # kvs) \<and> objects h' a = objects h v))"
    if c: "cl' k = Some a" for k a
  proof -
    from en[OF c] show ?thesis
    proof
      assume o: "cl1 k = Some a"
      show ?thesis
      proof (cases "k = k0")
        case True
        with o have a: "a = allocated h" by (simp add: cl1_def)
        have "objects h' (allocated h) = objects h1 (allocated h)" by (rule fr) (simp add: h1_def)
        then have "objects h' a = objects h v0" by (simp add: h1_def a)
        moreover have "a < allocated h'" using al a by (simp add: h1_def)
        ultimately show ?thesis using a True kv by auto
      next
        case False
        with o show ?thesis by (simp add: cl1_def)
      qed
    next
      assume f: "allocated h1 \<le> a \<and> a < allocated h' \<and>
                 (\<exists>v. (k, v) \<in> set kvs \<and> objects h' a = objects h1 v)"
      then obtain v where v: "(k, v) \<in> set kvs" "objects h' a = objects h1 v" by blast
      from v(1) Cons.prems(2) have "v < allocated h" by auto
      with v have "objects h' a = objects h v" by (simp add: h1_def)
      with f v(1) show ?thesis by (auto simp: h1_def)
    qed
  qed
  from 1 2 3 show ?case by blast
qed

lemma valid_Fork: "valid w \<Longrightarrow> valid (snd (Fork ks w))"
proof -
  assume v: "valid w"
  obtain snapshot h where w: "w = (snapshot, h)" by (cases w)
  show ?thesis
  proof (cases "forkedData snapshot")
    case (Some d)
    with v w show ?thesis by (simp add: Fork_def)
  next
    case None
    let ?m = "nodeInfoMap (baseData snapshot)"
    obtain cl' h' where l: "clone_loop (range_map ks ?m) Map.empty h = (cl', h')"
      by (cases "clone_loop (range_map ks ?m) Map.empty h")
    with None w have r: "snd (Fork ks w) = (snapshot\<lparr>forkedData := Some \<lparr>nodeInfoMap = cl'\<rparr>\<rparr>, h')"
      by (simp add: Fork_def clone_def)
    from v w have okb: "data_ok (baseData snapshot) h" by (simp add: valid_def)
    then have b: "\<forall>(k, a) \<in> set (range_map ks ?m). a < allocated h"
      by (auto simp: set_range_map data_ok_def)
    from clone_loop_any_order[OF l b] have
      al: "allocated h \<le> allocated h'"
      and fr: "\<And>b. b < allocated h \<Longrightarrow> objects h' b = objects h b"
      and en: "\<And>k a. cl' k = Some a \<Longrightarrow>
                 allocated h \<le> a \<and> a < allocated h' \<and>
                 (\<exists>v. (k, v) \<in> set (range_map ks ?m) \<and> objects h' a = objects h v)"
      by (simp, simp, fastforce)
    have okb': "data_ok (baseData snapshot) h'"
      unfolding data_ok_def
    proof (intro allI impI)
      fix k a assume "?m k = Some a"
      with okb have "a < allocated h" "map_option NodeName (node (objects h a)) = Some k"
        by (auto simp: data_ok_def)
      with fr[of a] al show "a < allocated h' \<and> map_option NodeName (node (objects h' a)) = Some k"
        by simp
    qed
    have okf': "data_ok \<lparr>nodeInfoMap = cl'\<rparr> h'"
      unfolding data_ok_def
    proof (intro allI impI)
      fix k a assume "nodeInfoMap \<lparr>nodeInfoMap = cl'\<rparr> k = Some a"
      then have "cl' k = Some a" by simp
      from en[OF this] obtain v where a: "a < allocated h'" "?m k = Some v" "objects h' a = objects h v"
        by (auto simp: set_range_map)
      from okb a(2) have "map_option NodeName (node (objects h v)) = Some k"
        by (auto simp: data_ok_def)
      with a show "a < allocated h' \<and> map_option NodeName (node (objects h' a)) = Some k" by simp
    qed
    have dis: "?m k' \<noteq> Some a" if "cl' k = Some a" for k k' a
    proof
      assume "?m k' = Some a"
      with okb have "a < allocated h" by (auto simp: data_ok_def)
      with en[OF that] show False by simp
    qed
    from r okb' okf' dis show ?thesis by (auto simp: valid_def)
  qed
qed

lemma valid_perform: "valid w \<Longrightarrow> valid (snd (perform c w))"
  by (cases c) (simp_all add: valid_exec valid_Fork valid_Revert valid_Commit valid_Clear)

lemma valid_reachable: "valid (perform_all cs NewBasicClusterSnapshot)"
proof -
  have "valid w \<Longrightarrow> valid (perform_all cs w)" for w
    by (induction cs arbitrary: w) (simp_all add: valid_perform)
  then show ?thesis by (simp add: valid_New)
qed

lemma RemoveNode_result:
  "RemoveNode nodeName (snapshot, h) =
     (case nodeInfoMap (getInternalData snapshot) nodeName of
        None \<Rightarrow> (Some (NodeNotFound nodeName), (snapshot, h))
      | Some a \<Rightarrow>
          (None,
           (setInternalData
              ((getInternalData snapshot)\<lparr>nodeInfoMap :=
                  (nodeInfoMap (getInternalData snapshot))(nodeName := None)\<rparr>) snapshot,
            h)))"
  by (simp add: RemoveNode_def onInternalData_def removeNode_def split: option.splits)

lemma getInternalData_setInternalData [simp]:
  "getInternalData (setInternalData d snapshot) = d"
  by (simp add: setInternalData_def getInternalData_def split: option.splits)

lemma forkedData_setInternalData_None [simp]:
  "forkedData (setInternalData d snapshot) = None \<longleftrightarrow> forkedData snapshot = None"
  by (simp add: setInternalData_def split: option.splits)

lemma find_no_match:
  "\<forall>q \<in> set ps. \<not> pod_matches namespace podName q \<Longrightarrow>
     find (\<lambda>pod. PodNamespace pod = namespace \<and> PodName pod = podName) ps = None"
  by (simp add: find_None_iff pod_matches_def)

lemma find_first_match:
  "\<forall>q \<in> set ps1. \<not> pod_matches namespace podName q \<Longrightarrow> pod_matches namespace podName p \<Longrightarrow>
     find (\<lambda>pod. PodNamespace pod = namespace \<and> PodName pod = podName) (ps1 @ p # ps2) = Some p"
  by (induction ps1) (auto simp: pod_matches_def)

lemma removePod_loop_none:
  "\<forall>(k, a) \<in> set kvs. \<forall>q \<in> set (NodeInfo_Pods (objects h a)). \<not> pod_matches namespace podName q \<Longrightarrow>
     removePod_loop kvs namespace podName h = (Some (PodNotFound namespace podName), h)"
  by (induction kvs) (auto simp: find_no_match)

lemma removePod_loop_first:
  assumes "\<forall>(k', a') \<in> set pre. \<forall>q \<in> set (NodeInfo_Pods (objects h a')). \<not> pod_matches namespace podName q"
    and "NodeInfo_Pods (objects h a) = ps1 @ p # ps2"
    and "\<forall>q \<in> set ps1. \<not> pod_matches namespace podName q"
    and "pod_matches namespace podName p"
  shows "removePod_loop (pre @ (k, a) # post) namespace podName h =
           (None, store a ((objects h a)\<lparr>pods := ps1 @ ps2\<rparr>) h)"
  using assms(1)
proof (induction pre)
  case Nil
  from assms(3,4) have "p \<notin> set ps1" by auto
  then have "remove1 p (ps1 @ p # ps2) = ps1 @ ps2" by (simp add: remove1_append)
  moreover have "pods (objects h a) = ps1 @ p # ps2" using assms(2) by (simp add: NodeInfo_Pods_def)
  ultimately show ?case
    using find_first_match[OF assms(3,4), of ps2] assms(2)
    by (simp add: NodeInfo_RemovePod_def)
next
  case (Cons kv pre)
  obtain k' a' where kv: "kv = (k', a')" by (cases kv)
  from Cons.prems kv have "\<forall>q \<in> set (NodeInfo_Pods (objects h a')). \<not> pod_matches namespace podName q"
    by simp
  from find_no_match[OF this] Cons kv show ?case by simp
qed

lemma removePod_loop_some:
  assumes "\<exists>(k, a) \<in> set kvs. \<exists>q \<in> set (NodeInfo_Pods (objects h a)). pod_matches namespace podName q"
  shows "\<exists>h'. removePod_loop kvs namespace podName h = (None, h')"
proof -
  let ?P = "\<lambda>kv. \<exists>q \<in> set (NodeInfo_Pods (objects h (snd kv))). pod_matches namespace podName q"
  from assms obtain k0 a0 q0 where "(k0, a0) \<in> set kvs" "q0 \<in> set (NodeInfo_Pods (objects h a0))"
    "pod_matches namespace podName q0" by auto
  then have "\<exists>kv \<in> set kvs. ?P kv" by (intro bexI[of _ "(k0, a0)"]) auto
  then obtain pre kv post where s: "kvs = pre @ kv # post" "?P kv" "\<forall>y \<in> set pre. \<not> ?P y"
    using split_list_first_prop[of kvs ?P] by blast
  obtain k a where kv: "kv = (k, a)" by (cases kv)
  from s(2) kv obtain ps1 p ps2 where
    ps: "NodeInfo_Pods (objects h a) = ps1 @ p # ps2" "pod_matches namespace podName p"
      "\<forall>q \<in> set ps1. \<not> pod_matches namespace podName q"
    using split_list_first_prop[of "NodeInfo_Pods (objects h a)" "pod_matches namespace podName"]
    by auto
  from s(3) have "\<forall>(k', a') \<in> set pre. \<forall>q \<in> set (NodeInfo_Pods (objects h a')). \<not> pod_matches namespace podName q"
    by auto
  from removePod_loop_first[OF this ps(1) ps(3) ps(2)] s(1) kv show ?thesis by simp
qed

lemma RemovePod_loop:
  "RemovePod ks namespace podName (snapshot, h) =
     (fst (removePod_loop (range_map ks (nodeInfoMap (getInternalData snapshot))) namespace podName h),
      (snapshot, snd (removePod_loop (range_map ks (nodeInfoMap (getInternalData snapshot))) namespace podName h)))"
  by (simp add: RemovePod_def onInternalData_def removePod_def split: prod.splits)

lemma FilteredList_filter:
  "PodLister_FilteredList ks podFilter selector d h =
     (filter (\<lambda>pod. podFilter pod \<and> selector (PodLabels pod)) (fst (getAllPods ks d h)), None)"
  by (simp add: PodLister_FilteredList_def getAllPods_def filter_concat o_def case_prod_unfold)

lemma PodsWithAffinity_nonempty:
  "length (NodeInfo_PodsWithAffinity ni) > 0 \<longleftrightarrow> (\<exists>p \<in> set (NodeInfo_Pods ni). PodAffinity p)"
  by (auto simp: NodeInfo_PodsWithAffinity_def NodeInfo_Pods_def filter_empty_conv)

lemma set_NodeLister_List:
  "enumerates ks (nodeInfoMap d) \<Longrightarrow> set (fst (NodeLister_List ks d)) = ran (nodeInfoMap d)"
  by (force simp: NodeLister_List_def set_range_map_enumerates ran_def)

section \<open>The claims\<close>

subsection \<open>Fork, mutations, Revert\<close>

text \<open>
  Claim C1. Take a fresh snapshot, apply any sequence \<open>ops1\<close> of mutating calls (calls of
  \<open>AddNode\<close> and \<open>AddPod\<close> in particular), fork, apply any further sequence \<open>ops2\<close> of
  \<open>AddNode\<close>, \<open>RemoveNode\<close>, \<open>AddPod\<close> and \<open>RemovePod\<close> calls, and revert. The fork and the
  revert succeed, and \<open>GetAllNodes\<close> and \<open>GetAllPods\<close> then return what they returned just
  before the fork: the same list when the runtime enumerates the map in the same order, and
  the same set of nodes and of pods whatever the two orders are.
\<close>

theorem fork_mutate_revert_restores:
  assumes en: "enumerates ks (nodeInfoMap (baseData (fst (run ops1 NewBasicClusterSnapshot))))"
  shows "let w1 = run ops1 NewBasicClusterSnapshot;
             w2 = Fork ks w1;
             w3 = run ops2 (snd w2);
             w4 = Revert w3
         in fst w2 = None \<and> fst w4 = None \<and>
            GetAllNodes k (snd w4) = GetAllNodes k w1 \<and>
            GetAllPods k (snd w4) = GetAllPods k w1 \<and>
            (enumerates ka (nodeInfoMap (getInternalData (fst w1))) \<longrightarrow>
             enumerates kb (nodeInfoMap (getInternalData (fst (snd w4)))) \<longrightarrow>
               set (fst (GetAllNodes kb (snd w4))) = set (fst (GetAllNodes ka w1)) \<and>
               set (fst (GetAllPods kb (snd w4))) = set (fst (GetAllPods ka w1)))"
proof -
  define w1 where "w1 = run ops1 NewBasicClusterSnapshot"
  define w2 where "w2 = Fork ks w1"
  define w3 where "w3 = run ops2 (snd w2)"
  define w4 where "w4 = Revert w3"
  have v1: "valid w1" and u1: "forkedData (fst w1) = None"
    by (simp_all add: w1_def valid_run valid_New unforked_run unforked_New)
  from en have en1: "enumerates ks (nodeInfoMap (baseData (fst w1)))" by (simp add: w1_def)
  have f: "fst w2 = None" "valid (snd w2)" "baseData (fst (snd w2)) = baseData (fst w1)"
    "view (baseData (fst w1)) (snd (snd w2)) = view (baseData (fst w1)) (snd w1)"
    "forkedData (fst (snd w2)) \<noteq> None"
    using Fork_props[OF v1 u1 en1] by (auto simp: w2_def)
  from forked_run[OF f(2) f(5), of ops2] f(3,4)
  have r: "baseData (fst w3) = baseData (fst w1)"
    "view (baseData (fst w1)) (snd w3) = view (baseData (fst w1)) (snd w1)"
    by (simp_all add: w3_def)
  have w4: "fst w4 = None" "getInternalData (fst (snd w4)) = baseData (fst w3)" "snd (snd w4) = snd w3"
    by (cases w3; simp add: w4_def Revert_def getInternalData_def)+
  from u1 have g1: "getInternalData (fst w1) = baseData (fst w1)" by (simp add: getInternalData_def)
  have "view (getInternalData (fst (snd w4))) (snd (snd w4)) = view (getInternalData (fst w1)) (snd w1)"
    using w4 r g1 by simp
  from same_view_reads[OF this] f(1) w4(1)
  have "fst w2 = None \<and> fst w4 = None \<and>
            GetAllNodes k (snd w4) = GetAllNodes k w1 \<and>
            GetAllPods k (snd w4) = GetAllPods k w1 \<and>
            (enumerates ka (nodeInfoMap (getInternalData (fst w1))) \<longrightarrow>
             enumerates kb (nodeInfoMap (getInternalData (fst (snd w4)))) \<longrightarrow>
               set (fst (GetAllNodes kb (snd w4))) = set (fst (GetAllNodes ka w1)) \<and>
               set (fst (GetAllPods kb (snd w4))) = set (fst (GetAllPods ka w1)))"
    by blast
  then show ?thesis by (simp add: w1_def w2_def w3_def w4_def Let_def)
qed

theorem fork_mutate_revert_restores_witness:
  "enumerates [''n1''] (nodeInfoMap (baseData (fst one_pod_world))) \<and>
   fst (GetAllNodes [''n1''] one_pod_world) = [Some node1] \<and>
   fst (GetAllPods [''n1''] one_pod_world) = [podA] \<and>
   fst (Fork [''n1''] one_pod_world) = None \<and>
   fst (GetAllPods [''n1'']
          (run [OpAddPod podB ''n1''] (snd (Fork [''n1''] one_pod_world)))) = [podA, podB] \<and>
   fst (GetAllNodes [''n1'']
          (run [OpAddPod podB ''n1'', OpRemoveNode ''n1''] (snd (Fork [''n1''] one_pod_world)))) = [] \<and>
   fst (GetAllNodes [''n1'']
          (snd (Revert (run [OpAddPod podB ''n1'', OpRemoveNode ''n1'']
                          (snd (Fork [''n1''] one_pod_world)))))) = [Some node1] \<and>
   fst (GetAllPods [''n1'']
          (snd (Revert (run [OpAddPod podB ''n1'', OpRemoveNode ''n1'']
                          (snd (Fork [''n1''] one_pod_world)))))) = [podA]"
proof -
  let ?ops1 = "[OpAddNode node1, OpAddPod podA ''n1'']"
  let ?ops2 = "[OpAddPod podB ''n1'', OpRemoveNode ''n1'']"
  have en: "enumerates [''n1''] (nodeInfoMap (baseData (fst (run ?ops1 NewBasicClusterSnapshot))))"
    by (simp add: snapshot_eval)
  have b: "fst (GetAllNodes [''n1''] one_pod_world) = [Some node1]"
    "fst (GetAllPods [''n1''] one_pod_world) = [podA]"
    by (simp_all add: one_pod_world_def snapshot_eval)
  have m: "fst (GetAllPods [''n1'']
          (run [OpAddPod podB ''n1''] (snd (Fork [''n1''] one_pod_world)))) = [podA, podB]"
    "fst (GetAllNodes [''n1'']
          (run [OpAddPod podB ''n1'', OpRemoveNode ''n1''] (snd (Fork [''n1''] one_pod_world)))) = []"
    by (simp_all add: one_pod_world_def snapshot_eval)
  from fork_mutate_revert_restores[OF en, of ?ops2 "[''n1'']"]
  have r: "fst (Fork [''n1''] one_pod_world) = None"
    "GetAllNodes [''n1''] (snd (Revert (run ?ops2 (snd (Fork [''n1''] one_pod_world))))) =
       GetAllNodes [''n1''] one_pod_world"
    "GetAllPods [''n1''] (snd (Revert (run ?ops2 (snd (Fork [''n1''] one_pod_world))))) =
       GetAllPods [''n1''] one_pod_world"
    unfolding Let_def one_pod_world_def by blast+
  from en b m r show ?thesis by (simp add: one_pod_world_def)
qed

subsection \<open>Fork, mutations, Commit\<close>

text \<open>
  Claim C2. The same sequence ended by \<open>Commit\<close>: the commit succeeds, the base data become
  what the forked data were, the fork is cleared and the heap is untouched, so \<open>GetAllNodes\<close>
  and \<open>GetAllPods\<close> return what they returned in the fork after the mutations. A further
  \<open>Fork\<close> followed at once by \<open>Revert\<close> succeeds, leaves the snapshot as committed and
  changes no answer of \<open>GetAllNodes\<close> and \<open>GetAllPods\<close>.
\<close>

theorem fork_mutate_commit_keeps:
  assumes en: "enumerates ks (nodeInfoMap (baseData (fst (run ops1 NewBasicClusterSnapshot))))"
  shows "let w1 = run ops1 NewBasicClusterSnapshot;
             w3 = run ops2 (snd (Fork ks w1));
             w4 = Commit w3;
             w5 = Fork ks' (snd w4);
             w6 = Revert (snd w5)
         in fst w4 = None \<and>
            forkedData (fst w3) = Some (baseData (fst (snd w4))) \<and>
            forkedData (fst (snd w4)) = None \<and>
            snd (snd w4) = snd w3 \<and>
            GetAllNodes k (snd w4) = GetAllNodes k w3 \<and>
            GetAllPods k (snd w4) = GetAllPods k w3 \<and>
            (enumerates ka (nodeInfoMap (getInternalData (fst w3))) \<longrightarrow>
             enumerates kb (nodeInfoMap (getInternalData (fst (snd w4)))) \<longrightarrow>
               set (fst (GetAllNodes kb (snd w4))) = set (fst (GetAllNodes ka w3)) \<and>
               set (fst (GetAllPods kb (snd w4))) = set (fst (GetAllPods ka w3))) \<and>
            (enumerates ks' (nodeInfoMap (baseData (fst (snd w4)))) \<longrightarrow>
               fst w5 = None \<and> fst w6 = None \<and>
               fst (snd w6) = fst (snd w4) \<and>
               GetAllNodes k (snd w6) = GetAllNodes k (snd w4) \<and>
               GetAllPods k (snd w6) = GetAllPods k (snd w4) \<and>
               (enumerates kb (nodeInfoMap (getInternalData (fst (snd w4)))) \<longrightarrow>
                enumerates kc (nodeInfoMap (getInternalData (fst (snd w6)))) \<longrightarrow>
                  set (fst (GetAllNodes kc (snd w6))) = set (fst (GetAllNodes kb (snd w4))) \<and>
                  set (fst (GetAllPods kc (snd w6))) = set (fst (GetAllPods kb (snd w4)))))"
proof -
  define w1 where "w1 = run ops1 NewBasicClusterSnapshot"
  define w2 where "w2 = Fork ks w1"
  define w3 where "w3 = run ops2 (snd w2)"
  define w4 where "w4 = Commit w3"
  define w5 where "w5 = Fork ks' (snd w4)"
  define w6 where "w6 = Revert (snd w5)"
  have v1: "valid w1" and u1: "forkedData (fst w1) = None"
    by (simp_all add: w1_def valid_run valid_New unforked_run unforked_New)
  from en have en1: "enumerates ks (nodeInfoMap (baseData (fst w1)))" by (simp add: w1_def)
  have f: "valid (snd w2)" "forkedData (fst (snd w2)) \<noteq> None"
    using Fork_props[OF v1 u1 en1] by (auto simp: w2_def)
  have v3: "valid w3" using f(1) by (simp add: w3_def valid_run)
  from forked_run[OF f, of ops2] obtain d where d: "forkedData (fst w3) = Some d"
    by (auto simp: w3_def)
  have c: "fst w4 = None" "baseData (fst (snd w4)) = d" "forkedData (fst (snd w4)) = None"
    "snd (snd w4) = snd w3"
    using d by (cases w3; simp add: w4_def Commit_def)+
  have v4: "valid (snd w4)" using v3 by (simp add: w4_def valid_Commit)
  have g3: "getInternalData (fst w3) = d" using d by (simp add: getInternalData_def)
  have g4: "getInternalData (fst (snd w4)) = d" using c by (simp add: getInternalData_def)
  have same34: "view (getInternalData (fst (snd w4))) (snd (snd w4)) = view (getInternalData (fst w3)) (snd w3)"
    using g3 g4 c(4) by simp
  note A = same_view_reads[OF same34]
  have B: "fst w5 = None \<and> fst w6 = None \<and>
               fst (snd w6) = fst (snd w4) \<and>
               GetAllNodes k (snd w6) = GetAllNodes k (snd w4) \<and>
               GetAllPods k (snd w6) = GetAllPods k (snd w4) \<and>
               (enumerates kb (nodeInfoMap (getInternalData (fst (snd w4)))) \<longrightarrow>
                enumerates kc (nodeInfoMap (getInternalData (fst (snd w6)))) \<longrightarrow>
                  set (fst (GetAllNodes kc (snd w6))) = set (fst (GetAllNodes kb (snd w4))) \<and>
                  set (fst (GetAllPods kc (snd w6))) = set (fst (GetAllPods kb (snd w4))))"
    if en': "enumerates ks' (nodeInfoMap (baseData (fst (snd w4))))"
  proof -
    have p: "fst w5 = None" "baseData (fst (snd w5)) = baseData (fst (snd w4))"
      "view (baseData (fst (snd w4))) (snd (snd w5)) = view (baseData (fst (snd w4))) (snd (snd w4))"
      using Fork_props[OF v4 c(3) en'] by (auto simp: w5_def)
    have q: "fst w6 = None" "fst (snd w6) = (fst (snd w5))\<lparr>forkedData := None\<rparr>"
      "snd (snd w6) = snd (snd w5)"
      by (cases "snd w5"; simp add: w6_def Revert_def)+
    have e: "fst (snd w6) = fst (snd w4)"
      by (rule BasicClusterSnapshot.equality) (simp_all add: q(2) p(2) c(3))
    have "view (getInternalData (fst (snd w6))) (snd (snd w6)) =
          view (getInternalData (fst (snd w4))) (snd (snd w4))"
      using e q(3) p(3) c(3) by (simp add: getInternalData_def)
    from same_view_reads[OF this] p(1) q(1) e show ?thesis by blast
  qed
  have "fst w4 = None \<and>
            forkedData (fst w3) = Some (baseData (fst (snd w4))) \<and>
            forkedData (fst (snd w4)) = None \<and>
            snd (snd w4) = snd w3 \<and>
            GetAllNodes k (snd w4) = GetAllNodes k w3 \<and>
            GetAllPods k (snd w4) = GetAllPods k w3 \<and>
            (enumerates ka (nodeInfoMap (getInternalData (fst w3))) \<longrightarrow>
             enumerates kb (nodeInfoMap (getInternalData (fst (snd w4)))) \<longrightarrow>
               set (fst (GetAllNodes kb (snd w4))) = set (fst (GetAllNodes ka w3)) \<and>
               set (fst (GetAllPods kb (snd w4))) = set (fst (GetAllPods ka w3))) \<and>
            (enumerates ks' (nodeInfoMap (baseData (fst (snd w4)))) \<longrightarrow>
               fst w5 = None \<and> fst w6 = None \<and>
               fst (snd w6) = fst (snd w4) \<and>
               GetAllNodes k (snd w6) = GetAllNodes k (snd w4) \<and>
               GetAllPods k (snd w6) = GetAllPods k (snd w4) \<and>
               (enumerates kb (nodeInfoMap (getInternalData (fst (snd w4)))) \<longrightarrow>
                enumerates kc (nodeInfoMap (getInternalData (fst (snd w6)))) \<longrightarrow>
                  set (fst (GetAllNodes kc (snd w6))) = set (fst (GetAllNodes kb (snd w4))) \<and>
                  set (fst (GetAllPods kc (snd w6))) = set (fst (GetAllPods kb (snd w4)))))"
    using c d A B by blast
  then show ?thesis by (simp add: w1_def w2_def w3_def w4_def w5_def w6_def Let_def)
qed

theorem fork_mutate_commit_keeps_witness:
  "enumerates [''n1''] (nodeInfoMap (baseData (fst one_pod_world))) \<and>
   fst (GetAllNodes [''n1'', ''n2'']
          (run [OpAddPod podB ''n1'', OpAddNode node2] (snd (Fork [''n1''] one_pod_world)))) =
     [Some node1, Some node2] \<and>
   fst (GetAllPods [''n1'', ''n2'']
          (run [OpAddPod podB ''n1'', OpAddNode node2] (snd (Fork [''n1''] one_pod_world)))) =
     [podA, podB] \<and>
   enumerates [''n2'', ''n1'']
     (nodeInfoMap (baseData (fst (snd (Commit
        (run [OpAddPod podB ''n1'', OpAddNode node2] (snd (Fork [''n1''] one_pod_world)))))))) \<and>
   fst (Commit (run [OpAddPod podB ''n1'', OpAddNode node2] (snd (Fork [''n1''] one_pod_world)))) =
     None \<and>
   fst (GetAllNodes [''n1'', ''n2'']
          (snd (Commit (run [OpAddPod podB ''n1'', OpAddNode node2]
                          (snd (Fork [''n1''] one_pod_world)))))) = [Some node1, Some node2] \<and>
   fst (GetAllPods [''n1'', ''n2'']
          (snd (Commit (run [OpAddPod podB ''n1'', OpAddNode node2]
                          (snd (Fork [''n1''] one_pod_world)))))) = [podA, podB] \<and>
   fst (GetAllNodes [''n1'', ''n2'']
          (snd (Revert (snd (Fork [''n2'', ''n1'']
             (snd (Commit (run [OpAddPod podB ''n1'', OpAddNode node2]
                             (snd (Fork [''n1''] one_pod_world)))))))))) = [Some node1, Some node2] \<and>
   fst (GetAllPods [''n1'', ''n2'']
          (snd (Revert (snd (Fork [''n2'', ''n1'']
             (snd (Commit (run [OpAddPod podB ''n1'', OpAddNode node2]
                             (snd (Fork [''n1''] one_pod_world)))))))))) = [podA, podB]"
proof -
  let ?ops1 = "[OpAddNode node1, OpAddPod podA ''n1'']"
  let ?ops2 = "[OpAddPod podB ''n1'', OpAddNode node2]"
  define w3 where "w3 = run ?ops2 (snd (Fork [''n1''] one_pod_world))"
  have en: "enumerates [''n1''] (nodeInfoMap (baseData (fst (run ?ops1 NewBasicClusterSnapshot))))"
    by (simp add: snapshot_eval)
  have b: "fst (GetAllNodes [''n1'', ''n2''] w3) = [Some node1, Some node2]"
    "fst (GetAllPods [''n1'', ''n2''] w3) = [podA, podB]"
    by (simp_all add: w3_def one_pod_world_def snapshot_eval)
  have en': "enumerates [''n2'', ''n1''] (nodeInfoMap (baseData (fst (snd (Commit w3)))))"
    by (simp add: w3_def one_pod_world_def snapshot_eval insert_commute)
  from fork_mutate_commit_keeps[OF en, of ?ops2 "[''n2'', ''n1'']" "[''n1'', ''n2'']"] en'
  have r: "fst (Commit w3) = None"
    "GetAllNodes [''n1'', ''n2''] (snd (Commit w3)) = GetAllNodes [''n1'', ''n2''] w3"
    "GetAllPods [''n1'', ''n2''] (snd (Commit w3)) = GetAllPods [''n1'', ''n2''] w3"
    "GetAllNodes [''n1'', ''n2''] (snd (Revert (snd (Fork [''n2'', ''n1''] (snd (Commit w3)))))) =
       GetAllNodes [''n1'', ''n2''] (snd (Commit w3))"
    "GetAllPods [''n1'', ''n2''] (snd (Revert (snd (Fork [''n2'', ''n1''] (snd (Commit w3)))))) =
       GetAllPods [''n1'', ''n2''] (snd (Commit w3))"
    unfolding Let_def one_pod_world_def w3_def by blast+
  from en b en' r show ?thesis unfolding w3_def by (simp add: one_pod_world_def)
qed

subsection \<open>Fork on a forked and on an unforked snapshot\<close>

text \<open>
  Claim C3. \<open>Fork\<close> on a snapshot that has forked data fails with \<open>AlreadyForked\<close> and
  changes nothing, neither the snapshot nor the heap. On a well-formed snapshot without
  forked data it succeeds: the base data and the node records they show are as before, and
  the forked data show the same node records as the base data, held in objects of their own.
\<close>

theorem fork_twice:
  "(forkedData snapshot \<noteq> None \<longrightarrow>
      Fork ks (snapshot, h) = (Some AlreadyForked, (snapshot, h))) \<and>
   (forkedData snapshot = None \<longrightarrow> valid (snapshot, h) \<longrightarrow>
    enumerates ks (nodeInfoMap (baseData snapshot)) \<longrightarrow>
      (case Fork ks (snapshot, h) of (err, (snapshot', h')) \<Rightarrow>
         err = None \<and> baseData snapshot' = baseData snapshot \<and>
         view (baseData snapshot) h' = view (baseData snapshot) h \<and>
         (\<exists>d. forkedData snapshot' = Some d \<and>
              view d h' = view (baseData snapshot) h \<and>
              (\<forall>k a. nodeInfoMap d k = Some a \<longrightarrow> a \<notin> ran (nodeInfoMap (baseData snapshot))))))"
proof (intro conjI impI)
  assume "forkedData snapshot \<noteq> None"
  then show "Fork ks (snapshot, h) = (Some AlreadyForked, (snapshot, h))"
    by (simp add: Fork_def)
next
  assume u: "forkedData snapshot = None" and v: "valid (snapshot, h)"
    and en: "enumerates ks (nodeInfoMap (baseData snapshot))"
  obtain err snapshot' h' where r: "Fork ks (snapshot, h) = (err, (snapshot', h'))"
    by (cases "Fork ks (snapshot, h)") auto
  from Fork_props[of "(snapshot, h)" ks] u v en r
  have p: "err = None" "valid (snapshot', h')" "baseData snapshot' = baseData snapshot"
    "view (baseData snapshot) h' = view (baseData snapshot) h"
    "\<exists>d. forkedData snapshot' = Some d \<and> view d h' = view (baseData snapshot) h"
    by simp_all
  then obtain d where d: "forkedData snapshot' = Some d" "view d h' = view (baseData snapshot) h"
    by blast
  from p(2) d(1) p(3)
  have "\<forall>k a. nodeInfoMap d k = Some a \<longrightarrow> a \<notin> ran (nodeInfoMap (baseData snapshot))"
    by (auto simp: valid_def ran_def)
  with p d r
  show "case Fork ks (snapshot, h) of (err, (snapshot', h')) \<Rightarrow>
         err = None \<and> baseData snapshot' = baseData snapshot \<and>
         view (baseData snapshot) h' = view (baseData snapshot) h \<and>
         (\<exists>d. forkedData snapshot' = Some d \<and>
              view d h' = view (baseData snapshot) h \<and>
              (\<forall>k a. nodeInfoMap d k = Some a \<longrightarrow> a \<notin> ran (nodeInfoMap (baseData snapshot))))"
    by simp
qed

theorem fork_twice_witness:
  "let w = run [OpAddNode node1, OpAddPod podA ''n1''] NewBasicClusterSnapshot;
       r = Fork [''n1''] w
   in forkedData (fst w) = None \<and> valid w \<and>
      enumerates [''n1''] (nodeInfoMap (baseData (fst w))) \<and>
      fst r = None \<and> baseData (fst (snd r)) = baseData (fst w) \<and>
      forkedData (fst (snd r)) \<noteq> None \<and>
      Fork [''n1''] (snd r) = (Some AlreadyForked, snd r)"
proof -
  define w where "w = run [OpAddNode node1, OpAddPod podA ''n1''] NewBasicClusterSnapshot"
  define r where "r = Fork [''n1''] w"
  have "valid w" unfolding w_def by (rule valid_run[OF valid_New])
  then have v: "valid (fst w, snd w)" by simp
  have u: "forkedData (fst w) = None"
    unfolding w_def by (rule unforked_run[OF valid_New unforked_New])
  have en: "enumerates [''n1''] (nodeInfoMap (baseData (fst w)))"
    by (simp add: w_def snapshot_eval)
  from fork_twice[of "fst w" "[''n1'']" "snd w"] u v en
  have 1: "fst r = None \<and> baseData (fst (snd r)) = baseData (fst w) \<and> forkedData (fst (snd r)) \<noteq> None"
    by (auto simp: r_def split: prod.splits)
  with fork_twice[of "fst (snd r)" "[''n1'']" "snd (snd r)"]
  have 2: "Fork [''n1''] (snd r) = (Some AlreadyForked, snd r)" by simp
  from v u en 1 2 show ?thesis by (simp add: w_def r_def Let_def)
qed

subsection \<open>Revert and Commit without a fork\<close>

text \<open>
  Claim C4. On a snapshot without forked data \<open>Revert\<close> and \<open>Commit\<close> both return no error
  and leave the snapshot and the heap as they were.
\<close>

theorem revert_commit_unforked_noop:
  "forkedData snapshot = None \<Longrightarrow>
     Revert (snapshot, h) = (None, (snapshot, h)) \<and> Commit (snapshot, h) = (None, (snapshot, h))"
  by (simp add: Revert_def Commit_def)

theorem revert_commit_unforked_noop_witness:
  "forkedData (fst NewBasicClusterSnapshot) = None \<and>
   Revert NewBasicClusterSnapshot = (None, NewBasicClusterSnapshot) \<and>
   Commit NewBasicClusterSnapshot = (None, NewBasicClusterSnapshot)"
  using revert_commit_unforked_noop[of "fst NewBasicClusterSnapshot" "snd NewBasicClusterSnapshot"]
  by (simp add: unforked_New)

subsection \<open>RemoveNode\<close>

text \<open>
  Claim C5, as amended. \<open>RemoveNode\<close> with a name that the active data do not map fails with
  \<open>NodeNotFound\<close> and changes nothing. With a mapped name it succeeds, takes the name out of
  the map and touches nothing else (the heap and the fork state are as before). Afterwards
  \<open>GetAllPods\<close> returns exactly the pods of the records of the other names, so a pod of the
  removed record is gone unless another record holds it too; and in a well-formed world
  \<open>GetAllNodes\<close> returns neither the node of the removed record nor any node of that name.
\<close>

theorem removeNode_discards:
  "(nodeInfoMap (getInternalData snapshot) nodeName = None \<longrightarrow>
      RemoveNode nodeName (snapshot, h) = (Some (NodeNotFound nodeName), (snapshot, h))) \<and>
   (\<forall>a. nodeInfoMap (getInternalData snapshot) nodeName = Some a \<longrightarrow>
      (case RemoveNode nodeName (snapshot, h) of (err, (snapshot', h')) \<Rightarrow>
         err = None \<and> h' = h \<and>
         nodeInfoMap (getInternalData snapshot') =
           (nodeInfoMap (getInternalData snapshot))(nodeName := None) \<and>
         (forkedData snapshot' = None \<longleftrightarrow> forkedData snapshot = None) \<and>
         (enumerates ks (nodeInfoMap (getInternalData snapshot')) \<longrightarrow>
            set (fst (GetAllPods ks (snapshot', h'))) =
              {p. \<exists>k b. k \<noteq> nodeName \<and> nodeInfoMap (getInternalData snapshot) k = Some b \<and>
                         p \<in> set (NodeInfo_Pods (objects h b))} \<and>
            (\<forall>p \<in> set (NodeInfo_Pods (objects h a)).
               (\<forall>k b. k \<noteq> nodeName \<and> nodeInfoMap (getInternalData snapshot) k = Some b \<longrightarrow>
                      p \<notin> set (NodeInfo_Pods (objects h b))) \<longrightarrow>
               p \<notin> set (fst (GetAllPods ks (snapshot', h')))) \<and>
            (valid (snapshot, h) \<longrightarrow>
               NodeInfo_Node (objects h a) \<notin> set (fst (GetAllNodes ks (snapshot', h'))) \<and>
               (\<forall>n. Some n \<in> set (fst (GetAllNodes ks (snapshot', h'))) \<longrightarrow>
                    NodeName n \<noteq> nodeName)))))"
proof (intro conjI allI impI)
  assume "nodeInfoMap (getInternalData snapshot) nodeName = None"
  then show "RemoveNode nodeName (snapshot, h) = (Some (NodeNotFound nodeName), (snapshot, h))"
    by (simp add: RemoveNode_result)
next
  fix a
  assume a: "nodeInfoMap (getInternalData snapshot) nodeName = Some a"
  let ?m = "nodeInfoMap (getInternalData snapshot)"
  define snapshot' where
    "snapshot' = setInternalData ((getInternalData snapshot)\<lparr>nodeInfoMap := ?m(nodeName := None)\<rparr>) snapshot"
  have r: "RemoveNode nodeName (snapshot, h) = (None, (snapshot', h))"
    using a by (simp add: RemoveNode_result snapshot'_def)
  have m': "nodeInfoMap (getInternalData snapshot') = ?m(nodeName := None)"
    by (simp add: snapshot'_def)
  have fk: "forkedData snapshot' = None \<longleftrightarrow> forkedData snapshot = None"
    by (simp add: snapshot'_def)
  have rest: "set (fst (GetAllPods ks (snapshot', h))) =
              {p. \<exists>k b. k \<noteq> nodeName \<and> ?m k = Some b \<and> p \<in> set (NodeInfo_Pods (objects h b))} \<and>
            (\<forall>p \<in> set (NodeInfo_Pods (objects h a)).
               (\<forall>k b. k \<noteq> nodeName \<and> ?m k = Some b \<longrightarrow> p \<notin> set (NodeInfo_Pods (objects h b))) \<longrightarrow>
               p \<notin> set (fst (GetAllPods ks (snapshot', h)))) \<and>
            (valid (snapshot, h) \<longrightarrow>
               NodeInfo_Node (objects h a) \<notin> set (fst (GetAllNodes ks (snapshot', h))) \<and>
               (\<forall>n. Some n \<in> set (fst (GetAllNodes ks (snapshot', h))) \<longrightarrow> NodeName n \<noteq> nodeName))"
    if en: "enumerates ks (nodeInfoMap (getInternalData snapshot'))"
  proof -
    from en have en': "enumerates ks (nodeInfoMap (getInternalData (fst (snapshot', h))))" by simp
    have P: "set (fst (GetAllPods ks (snapshot', h))) =
              {p. \<exists>k b. k \<noteq> nodeName \<and> ?m k = Some b \<and> p \<in> set (NodeInfo_Pods (objects h b))}"
      unfolding set_GetAllPods[OF en'] by (auto simp: view_def m' split: if_splits)
    have N: "set (fst (GetAllNodes ks (snapshot', h))) =
              {NodeInfo_Node (objects h b) | k b. k \<noteq> nodeName \<and> ?m k = Some b}"
      unfolding set_GetAllNodes[OF en'] by (auto simp: view_def m' split: if_splits)
    have V: "NodeInfo_Node (objects h a) \<notin> set (fst (GetAllNodes ks (snapshot', h))) \<and>
               (\<forall>n. Some n \<in> set (fst (GetAllNodes ks (snapshot', h))) \<longrightarrow> NodeName n \<noteq> nodeName)"
      if v: "valid (snapshot, h)"
    proof -
      from v have ok: "data_ok (getInternalData snapshot) h"
        by (auto simp: valid_def getInternalData_def split: option.splits)
      then have nm: "map_option NodeName (NodeInfo_Node (objects h b)) = Some k" if "?m k = Some b" for k b
        using that by (simp add: data_ok_def NodeInfo_Node_def)
      have "map_option NodeName x \<noteq> Some nodeName" if "x \<in> set (fst (GetAllNodes ks (snapshot', h)))" for x
      proof -
        from that obtain k b where kb: "x = NodeInfo_Node (objects h b)" "k \<noteq> nodeName" "?m k = Some b"
          unfolding N by blast
        from nm[OF kb(3)] kb(1,2) show ?thesis by auto
      qed
      moreover have "map_option NodeName (NodeInfo_Node (objects h a)) = Some nodeName"
        using nm[OF a] .
      ultimately show ?thesis by force
    qed
    from P V show ?thesis by blast
  qed
  show "case RemoveNode nodeName (snapshot, h) of (err, (snapshot', h')) \<Rightarrow>
         err = None \<and> h' = h \<and>
         nodeInfoMap (getInternalData snapshot') = ?m(nodeName := None) \<and>
         (forkedData snapshot' = None \<longleftrightarrow> forkedData snapshot = None) \<and>
         (enumerates ks (nodeInfoMap (getInternalData snapshot')) \<longrightarrow>
            set (fst (GetAllPods ks (snapshot', h'))) =
              {p. \<exists>k b. k \<noteq> nodeName \<and> ?m k = Some b \<and> p \<in> set (NodeInfo_Pods (objects h b))} \<and>
            (\<forall>p \<in> set (NodeInfo_Pods (objects h a)).
               (\<forall>k b. k \<noteq> nodeName \<and> ?m k = Some b \<longrightarrow> p \<notin> set (NodeInfo_Pods (objects h b))) \<longrightarrow>
               p \<notin> set (fst (GetAllPods ks (snapshot', h')))) \<and>
            (valid (snapshot, h) \<longrightarrow>
               NodeInfo_Node (objects h a) \<notin> set (fst (GetAllNodes ks (snapshot', h'))) \<and>
               (\<forall>n. Some n \<in> set (fst (GetAllNodes ks (snapshot', h'))) \<longrightarrow>
                    NodeName n \<noteq> nodeName)))"
    unfolding r prod.case by (intro conjI refl m' fk impI rest)
qed

theorem removeNode_discards_witness:
  "nodeInfoMap (getInternalData (fst two_node_world)) ''n3'' = None \<and>
   RemoveNode ''n3'' two_node_world = (Some (NodeNotFound ''n3''), two_node_world) \<and>
   nodeInfoMap (getInternalData (fst two_node_world)) ''n1'' = Some 0 \<and>
   valid two_node_world \<and>
   enumerates [''n2''] (nodeInfoMap (getInternalData (fst (snd (RemoveNode ''n1'' two_node_world))))) \<and>
   NodeInfo_Pods (objects (snd two_node_world) 0) = [podA] \<and>
   NodeInfo_Node (objects (snd two_node_world) 0) = Some node1 \<and>
   fst (RemoveNode ''n1'' two_node_world) = None \<and>
   podA \<notin> set (fst (GetAllPods [''n2''] (snd (RemoveNode ''n1'' two_node_world)))) \<and>
   Some node1 \<notin> set (fst (GetAllNodes [''n2''] (snd (RemoveNode ''n1'' two_node_world))))"
proof -
  obtain snapshot h where w: "two_node_world = (snapshot, h)" by (cases two_node_world)
  have v: "valid (snapshot, h)"
    unfolding w[symmetric] two_node_world_def by (rule valid_run[OF valid_New])
  have 1: "nodeInfoMap (getInternalData snapshot) ''n3'' = None"
    and 2: "nodeInfoMap (getInternalData snapshot) ''n1'' = Some 0"
    and 3: "NodeInfo_Pods (objects h 0) = [podA]"
    and 4: "NodeInfo_Node (objects h 0) = Some node1"
    and 5: "\<forall>k b. k \<noteq> ''n1'' \<and> nodeInfoMap (getInternalData snapshot) k = Some b \<longrightarrow>
                  podA \<notin> set (NodeInfo_Pods (objects h b))"
    using w by (auto simp: two_node_world_def snapshot_eval split: if_splits)
  obtain err snapshot' h' where r: "RemoveNode ''n1'' (snapshot, h) = (err, (snapshot', h'))"
    by (cases "RemoveNode ''n1'' (snapshot, h)") auto
  have en: "enumerates [''n2''] (nodeInfoMap (getInternalData snapshot'))"
    using r w by (auto simp: two_node_world_def snapshot_eval split: if_splits)
  from removeNode_discards[of snapshot "''n3''" h] 1
  have a: "RemoveNode ''n3'' (snapshot, h) = (Some (NodeNotFound ''n3''), (snapshot, h))" by simp
  from removeNode_discards[of snapshot "''n1''" h "[''n2'']"] 2 r en v 3 4 5
  have b: "err = None" "podA \<notin> set (fst (GetAllPods [''n2''] (snapshot', h')))"
    "Some node1 \<notin> set (fst (GetAllNodes [''n2''] (snapshot', h')))"
    by auto
  from 1 2 3 4 v en a b r show ?thesis unfolding w by simp
qed

text \<open>
  The claim as first stated ("\<open>GetAllPods\<close> afterwards contains none of those pods") fails
  when the pod is also assigned to another node: \<open>podA\<close> was added to \<open>n1\<close> and to \<open>n2\<close>, and
  after \<open>RemoveNode\<close> of \<open>n1\<close> it is still listed.
\<close>

theorem removeNode_shared_pod_counterexample:
  "nodeInfoMap (getInternalData (fst shared_pod_world)) ''n1'' = Some 0 \<and>
   podA \<in> set (NodeInfo_Pods (objects (snd shared_pod_world) 0)) \<and>
   fst (RemoveNode ''n1'' shared_pod_world) = None \<and>
   enumerates [''n2''] (nodeInfoMap (getInternalData (fst (snd (RemoveNode ''n1'' shared_pod_world))))) \<and>
   podA \<in> set (fst (GetAllPods [''n2''] (snd (RemoveNode ''n1'' shared_pod_world))))"
  by (simp add: shared_pod_world_def snapshot_eval)

subsection \<open>AddPod\<close>

text \<open>
  Claim C6. \<open>AddPod\<close> with a node name that the active data do not map fails with
  \<open>NodeNotFound\<close> and leaves the snapshot and the heap as they were. When the name is mapped,
  the call succeeds, the pod is appended to the pods of that node's record, and nothing else
  changes: the snapshot, the record's node and every other object are as before.
\<close>

theorem addPod_missing_node:
  "(nodeInfoMap (getInternalData snapshot) nodeName = None \<longrightarrow>
      AddPod pod nodeName (snapshot, h) = (Some (NodeNotFound nodeName), (snapshot, h))) \<and>
   (\<forall>a. nodeInfoMap (getInternalData snapshot) nodeName = Some a \<longrightarrow>
      AddPod pod nodeName (snapshot, h) =
        (None, (snapshot, store a (NodeInfo_AddPod pod (objects h a)) h)) \<and>
      NodeInfo_Pods (objects (snd (snd (AddPod pod nodeName (snapshot, h)))) a) =
        NodeInfo_Pods (objects h a) @ [pod] \<and>
      NodeInfo_Node (objects (snd (snd (AddPod pod nodeName (snapshot, h)))) a) =
        NodeInfo_Node (objects h a) \<and>
      (\<forall>b. b \<noteq> a \<longrightarrow> objects (snd (snd (AddPod pod nodeName (snapshot, h)))) b = objects h b))"
  by (simp add: AddPod_def onInternalData_def addPod_def store_def NodeInfo_AddPod_def
      NodeInfo_Pods_def NodeInfo_Node_def)

theorem addPod_missing_node_witness:
  "let w = run [OpAddNode node1, OpAddPod podA ''n1''] NewBasicClusterSnapshot
   in nodeInfoMap (getInternalData (fst w)) ''n2'' = None \<and>
      AddPod podB ''n2'' w = (Some (NodeNotFound ''n2''), w) \<and>
      nodeInfoMap (getInternalData (fst w)) ''n1'' = Some 0 \<and>
      fst (AddPod podB ''n1'' w) = None \<and>
      NodeInfo_Pods (objects (snd (snd (AddPod podB ''n1'' w))) 0) = [podA, podB]"
proof -
  define w where "w = run [OpAddNode node1, OpAddPod podA ''n1''] NewBasicClusterSnapshot"
  have 1: "nodeInfoMap (getInternalData (fst w)) ''n2'' = None"
    and 2: "nodeInfoMap (getInternalData (fst w)) ''n1'' = Some 0"
    and 3: "NodeInfo_Pods (objects (snd w) 0) = [podA]"
    by (simp_all add: w_def snapshot_eval)
  from addPod_missing_node[of "fst w" "''n2''" podB "snd w"] 1
  have a: "AddPod podB ''n2'' w = (Some (NodeNotFound ''n2''), w)" by simp
  from addPod_missing_node[of "fst w" "''n1''" podB "snd w"] 2 3
  have b: "fst (AddPod podB ''n1'' w) = None"
    "NodeInfo_Pods (objects (snd (snd (AddPod podB ''n1'' w))) 0) = [podA, podB]"
    by (simp_all add: store_def NodeInfo_AddPod_def NodeInfo_Pods_def)
  from 1 2 a b show ?thesis by (simp add: w_def Let_def)
qed

subsection \<open>RemovePod\<close>

text \<open>
  Claim C7. Let the runtime enumerate the map in the order \<open>ks\<close>. If no record visited holds a
  pod with the given namespace and name, \<open>RemovePod\<close> fails with \<open>PodNotFound\<close> and changes
  nothing. Otherwise it succeeds and removes exactly one pod: in the first record visited that
  holds a match, the first matching pod of that record; every other pod, record and the
  snapshot stay as they were. When \<open>ks\<close> enumerates the whole map, the call fails if and only
  if no pod of the snapshot matches. The only error it returns is \<open>PodNotFound\<close>, and a failed
  call leaves the world unchanged.
\<close>

theorem removePod_first_match:
  "(let m = nodeInfoMap (getInternalData snapshot);
        r = RemovePod ks namespace podName (snapshot, h)
    in ((\<forall>(k, a) \<in> set (range_map ks m).
           \<forall>q \<in> set (NodeInfo_Pods (objects h a)). \<not> pod_matches namespace podName q) \<longrightarrow>
          r = (Some (PodNotFound namespace podName), (snapshot, h))) \<and>
       (\<forall>pre k a post ps1 p ps2.
          range_map ks m = pre @ (k, a) # post \<and>
          (\<forall>(k', a') \<in> set pre.
             \<forall>q \<in> set (NodeInfo_Pods (objects h a')). \<not> pod_matches namespace podName q) \<and>
          NodeInfo_Pods (objects h a) = ps1 @ p # ps2 \<and>
          (\<forall>q \<in> set ps1. \<not> pod_matches namespace podName q) \<and>
          pod_matches namespace podName p \<longrightarrow>
            r = (None, (snapshot, store a ((objects h a)\<lparr>pods := ps1 @ ps2\<rparr>) h))) \<and>
       (enumerates ks m \<longrightarrow>
          (fst r \<noteq> None \<longleftrightarrow>
             \<not> (\<exists>k a q. m k = Some a \<and> q \<in> set (NodeInfo_Pods (objects h a)) \<and>
                        pod_matches namespace podName q))) \<and>
       (fst r = None \<or> fst r = Some (PodNotFound namespace podName)) \<and>
       (fst r \<noteq> None \<longrightarrow> snd r = (snapshot, h)))"
proof -
  define m where "m = nodeInfoMap (getInternalData snapshot)"
  define r where "r = RemovePod ks namespace podName (snapshot, h)"
  let ?kvs = "range_map ks m"
  let ?none = "\<forall>(k, a) \<in> set ?kvs. \<forall>q \<in> set (NodeInfo_Pods (objects h a)). \<not> pod_matches namespace podName q"
  have r: "r = (fst (removePod_loop ?kvs namespace podName h),
                (snapshot, snd (removePod_loop ?kvs namespace podName h)))"
    by (simp add: r_def m_def RemovePod_loop)
  have A: "r = (Some (PodNotFound namespace podName), (snapshot, h))" if ?none
    using removePod_loop_none[OF that] r by simp
  have B: "r = (None, (snapshot, store a ((objects h a)\<lparr>pods := ps1 @ ps2\<rparr>) h))"
    if "range_map ks m = pre @ (k, a) # post"
      and "\<forall>(k', a') \<in> set pre. \<forall>q \<in> set (NodeInfo_Pods (objects h a')). \<not> pod_matches namespace podName q"
      and "NodeInfo_Pods (objects h a) = ps1 @ p # ps2"
      and "\<forall>q \<in> set ps1. \<not> pod_matches namespace podName q"
      and "pod_matches namespace podName p"
    for pre k a post ps1 p ps2
    using removePod_loop_first[OF that(2,3,4,5), of k post] that(1) r by simp
  have C: "fst r = None" if "\<not> ?none"
  proof -
    from that have "\<exists>(k, a) \<in> set ?kvs. \<exists>q \<in> set (NodeInfo_Pods (objects h a)). pod_matches namespace podName q"
      by auto
    from removePod_loop_some[OF this] r show ?thesis by auto
  qed
  have D: "fst r \<noteq> None \<longleftrightarrow> ?none"
  proof (cases ?none)
    case True
    with A show ?thesis by simp
  next
    case False
    with C show ?thesis by simp
  qed
  have E: "?none \<longleftrightarrow> \<not> (\<exists>k a q. m k = Some a \<and> q \<in> set (NodeInfo_Pods (objects h a)) \<and>
                        pod_matches namespace podName q)" if "enumerates ks m"
    by (auto simp: set_range_map_enumerates[OF that])
  have F: "fst r = None \<or> fst r = Some (PodNotFound namespace podName)"
  proof (cases ?none)
    case True
    with A show ?thesis by simp
  next
    case False
    with C show ?thesis by simp
  qed
  have G: "fst r \<noteq> None \<longrightarrow> snd r = (snapshot, h)"
  proof (cases ?none)
    case True
    with A show ?thesis by simp
  next
    case False
    with C show ?thesis by simp
  qed
  have "(?none \<longrightarrow> r = (Some (PodNotFound namespace podName), (snapshot, h))) \<and>
       (\<forall>pre k a post ps1 p ps2.
          range_map ks m = pre @ (k, a) # post \<and>
          (\<forall>(k', a') \<in> set pre.
             \<forall>q \<in> set (NodeInfo_Pods (objects h a')). \<not> pod_matches namespace podName q) \<and>
          NodeInfo_Pods (objects h a) = ps1 @ p # ps2 \<and>
          (\<forall>q \<in> set ps1. \<not> pod_matches namespace podName q) \<and>
          pod_matches namespace podName p \<longrightarrow>
            r = (None, (snapshot, store a ((objects h a)\<lparr>pods := ps1 @ ps2\<rparr>) h))) \<and>
       (enumerates ks m \<longrightarrow>
          (fst r \<noteq> None \<longleftrightarrow>
             \<not> (\<exists>k a q. m k = Some a \<and> q \<in> set (NodeInfo_Pods (objects h a)) \<and>
                        pod_matches namespace podName q))) \<and>
       (fst r = None \<or> fst r = Some (PodNotFound namespace podName)) \<and>
       (fst r \<noteq> None \<longrightarrow> snd r = (snapshot, h))"
    using A B D E F G by blast
  then show ?thesis unfolding Let_def m_def r_def .
qed

theorem removePod_first_match_witness:
  "range_map [''n1'', ''n2''] (nodeInfoMap (getInternalData (fst dup_world))) = [(''n1'', 0), (''n2'', 1)] \<and>
   enumerates [''n1'', ''n2''] (nodeInfoMap (getInternalData (fst dup_world))) \<and>
   NodeInfo_Pods (objects (snd dup_world) 0) = [podB, podA] \<and>
   NodeInfo_Pods (objects (snd dup_world) 1) = [podA] \<and>
   pod_matches ''default'' ''a'' podA \<and> \<not> pod_matches ''default'' ''a'' podB \<and>
   RemovePod [''n1'', ''n2''] ''default'' ''a'' dup_world =
     (None, (fst dup_world, store 0 ((objects (snd dup_world) 0)\<lparr>pods := [podB]\<rparr>) (snd dup_world))) \<and>
   fst (GetAllPods [''n1'', ''n2''] (snd (RemovePod [''n1'', ''n2''] ''default'' ''a'' dup_world))) =
     [podB, podA] \<and>
   RemovePod [''n1'', ''n2''] ''default'' ''c'' dup_world =
     (Some (PodNotFound ''default'' ''c''), dup_world)"
proof -
  obtain snapshot h where w: "dup_world = (snapshot, h)" by (cases dup_world)
  have 1: "range_map [''n1'', ''n2''] (nodeInfoMap (getInternalData snapshot)) = [] @ (''n1'', 0) # [(''n2'', 1)]"
    and 2: "NodeInfo_Pods (objects h 0) = [podB] @ podA # []"
    and 3: "NodeInfo_Pods (objects h 1) = [podA]"
    and 4: "enumerates [''n1'', ''n2''] (nodeInfoMap (getInternalData snapshot))"
    using w by (auto simp: dup_world_def snapshot_eval split: if_splits)
  have 5: "pod_matches ''default'' ''a'' podA" "\<not> pod_matches ''default'' ''a'' podB"
    "\<not> pod_matches ''default'' ''c'' podA" "\<not> pod_matches ''default'' ''c'' podB"
    by (simp_all add: pod_matches_def podA_def podB_def)
  have 6: "\<forall>(k, a) \<in> set (range_map [''n1'', ''n2''] (nodeInfoMap (getInternalData snapshot))).
             \<forall>q \<in> set (NodeInfo_Pods (objects h a)). \<not> pod_matches ''default'' ''c'' q"
    using 1 2 3 5 by simp
  note T = removePod_first_match[where ks = "[''n1'', ''n2'']" and snapshot = snapshot and h = h,
      unfolded Let_def]
  from T[of "''default''" "''c''"] 6
  have a: "RemovePod [''n1'', ''n2''] ''default'' ''c'' (snapshot, h) =
            (Some (PodNotFound ''default'' ''c''), (snapshot, h))"
    by blast
  from T[of "''default''" "''a''", THEN conjunct2, THEN conjunct1, rule_format,
      of "[]" "''n1''" 0 "[(''n2'', 1)]" "[podB]" podA "[]"] 1 2 5
  have b: "RemovePod [''n1'', ''n2''] ''default'' ''a'' (snapshot, h) =
            (None, (snapshot, store 0 ((objects h 0)\<lparr>pods := [podB]\<rparr>) h))"
    by simp
  have c: "fst (GetAllPods [''n1'', ''n2''] (snd (RemovePod [''n1'', ''n2''] ''default'' ''a'' (snapshot, h)))) =
            [podB, podA]"
    unfolding b using 1 2 3 by (simp add: GetAllPods_def getAllPods_def store_def NodeInfo_Pods_def)
  from 1 2 3 4 5 a b c show ?thesis unfolding w by simp
qed

subsection \<open>The pod lister\<close>

text \<open>
  Claim C8, as amended. \<open>List\<close> is \<open>FilteredList\<close> with the filter that accepts every pod.
  \<open>FilteredList\<close> returns the pods of \<open>getAllPods\<close> (all pods of all records, in the order
  visited) that satisfy both the filter and the selector, each as often as the records hold
  it; as a set, these are the pods of the snapshot's records that satisfy both. The result has
  no duplicates when the records hold no pod twice.
\<close>

theorem filteredList_exact:
  "PodLister_List ks selector d h = PodLister_FilteredList ks (\<lambda>p. True) selector d h \<and>
   PodLister_FilteredList ks podFilter selector d h =
     (filter (\<lambda>pod. podFilter pod \<and> selector (PodLabels pod)) (fst (getAllPods ks d h)), None) \<and>
   (enumerates ks (nodeInfoMap d) \<longrightarrow>
      set (fst (PodLister_FilteredList ks podFilter selector d h)) =
        {pod. (\<exists>k a. nodeInfoMap d k = Some a \<and> pod \<in> set (NodeInfo_Pods (objects h a))) \<and>
              podFilter pod \<and> selector (PodLabels pod)} \<and>
      set (fst (PodLister_List ks selector d h)) =
        {pod. (\<exists>k a. nodeInfoMap d k = Some a \<and> pod \<in> set (NodeInfo_Pods (objects h a))) \<and>
              selector (PodLabels pod)}) \<and>
   (distinct (fst (getAllPods ks d h)) \<longrightarrow>
      distinct (fst (PodLister_FilteredList ks podFilter selector d h)))"
proof -
  have 1: "PodLister_List ks selector d h = PodLister_FilteredList ks (\<lambda>p. True) selector d h"
    by (simp add: PodLister_List_def)
  have 3: "set (fst (PodLister_FilteredList ks f selector d h)) =
        {pod. (\<exists>k a. nodeInfoMap d k = Some a \<and> pod \<in> set (NodeInfo_Pods (objects h a))) \<and>
              f pod \<and> selector (PodLabels pod)}" if "enumerates ks (nodeInfoMap d)" for f
    using set_getAllPods[OF that, of h] by (auto simp: FilteredList_filter view_def)
  have 4: "distinct (fst (PodLister_FilteredList ks podFilter selector d h))"
    if "distinct (fst (getAllPods ks d h))"
    using that by (simp add: FilteredList_filter)
  from 1 3[of podFilter] 3[of "\<lambda>p. True"] 4 show ?thesis
    by (simp add: FilteredList_filter)
qed

theorem filteredList_exact_witness:
  "enumerates [''n2'', ''n1''] (nodeInfoMap (getInternalData (fst two_node_world))) \<and>
   distinct (fst (getAllPods [''n2'', ''n1''] (getInternalData (fst two_node_world)) (snd two_node_world))) \<and>
   fst (PodLister_FilteredList [''n2'', ''n1''] any_pod app_web
          (getInternalData (fst two_node_world)) (snd two_node_world)) = [podA] \<and>
   distinct (fst (PodLister_FilteredList [''n2'', ''n1''] any_pod app_web
          (getInternalData (fst two_node_world)) (snd two_node_world))) \<and>
   podB \<notin> set (fst (PodLister_FilteredList [''n2'', ''n1''] any_pod app_web
          (getInternalData (fst two_node_world)) (snd two_node_world)))"
proof -
  define d where "d = getInternalData (fst two_node_world)"
  define h where "h = snd two_node_world"
  have en: "enumerates [''n2'', ''n1''] (nodeInfoMap d)"
    by (simp add: d_def two_node_world_def snapshot_eval insert_commute)
  have ps: "fst (getAllPods [''n2'', ''n1''] d h) = [podB, podA]"
    by (simp add: d_def h_def two_node_world_def snapshot_eval)
  have ne: "podA \<noteq> podB" by (simp add: podA_def podB_def)
  have sel: "app_web (PodLabels podA)" "\<not> app_web (PodLabels podB)"
    by (simp_all add: app_web_def podA_def podB_def)
  note T = filteredList_exact[where ks = "[''n2'', ''n1'']" and selector = app_web and d = d
      and h = h and podFilter = any_pod]
  from T ps ne have di: "distinct (fst (PodLister_FilteredList [''n2'', ''n1''] any_pod app_web d h))"
    by simp
  from T ps sel have l: "fst (PodLister_FilteredList [''n2'', ''n1''] any_pod app_web d h) = [podA]"
    by (simp add: any_pod_def)
  from T en sel have nb: "podB \<notin> set (fst (PodLister_FilteredList [''n2'', ''n1''] any_pod app_web d h))"
    by simp
  from en ps ne di l nb show ?thesis by (simp add: d_def h_def)
qed

text \<open>
  The claim as first stated ("its result never contains duplicate pods") fails: \<open>AddPod\<close>
  accepts the same pod twice, and \<open>FilteredList\<close> then returns it twice.
\<close>

theorem filteredList_duplicates_counterexample:
  "fst (PodLister_FilteredList [''n1''] any_pod any_labels
          (getInternalData (fst double_pod_world)) (snd double_pod_world)) = [podA, podA] \<and>
   \<not> distinct (fst (PodLister_FilteredList [''n1''] any_pod any_labels
                     (getInternalData (fst double_pod_world)) (snd double_pod_world)))"
  by (simp add: double_pod_world_def snapshot_eval PodLister_FilteredList_def any_pod_def
      any_labels_def)

subsection \<open>The node lister\<close>

text \<open>
  Claim C9. \<open>HavePodsWithAffinityList\<close> returns the entries of \<open>List\<close> whose record holds at
  least one pod that declares inter-pod affinity or anti-affinity, in the order visited; as a
  set, whatever the two enumeration orders. A record none of whose pods declares it is left
  out, whether or not it holds pods.
\<close>

theorem havePodsWithAffinity_exact:
  "fst (NodeLister_HavePodsWithAffinityList ks d h) =
     filter (\<lambda>v. \<exists>p \<in> set (NodeInfo_Pods (objects h v)). PodAffinity p) (fst (NodeLister_List ks d)) \<and>
   (enumerates ks (nodeInfoMap d) \<longrightarrow> enumerates ks' (nodeInfoMap d) \<longrightarrow>
      set (fst (NodeLister_HavePodsWithAffinityList ks d h)) =
        {v \<in> set (fst (NodeLister_List ks' d)). \<exists>p \<in> set (NodeInfo_Pods (objects h v)). PodAffinity p}) \<and>
   (\<forall>v. (\<forall>p \<in> set (NodeInfo_Pods (objects h v)). \<not> PodAffinity p) \<longrightarrow>
        v \<notin> set (fst (NodeLister_HavePodsWithAffinityList ks d h)))"
proof -
  have 1: "fst (NodeLister_HavePodsWithAffinityList ks d h) =
     filter (\<lambda>v. \<exists>p \<in> set (NodeInfo_Pods (objects h v)). PodAffinity p) (fst (NodeLister_List ks d))"
    unfolding NodeLister_HavePodsWithAffinityList_def NodeLister_List_def
      PodsWithAffinity_nonempty by simp
  have 2: "set (fst (NodeLister_HavePodsWithAffinityList ks d h)) =
        {v \<in> set (fst (NodeLister_List ks' d)). \<exists>p \<in> set (NodeInfo_Pods (objects h v)). PodAffinity p}"
    if "enumerates ks (nodeInfoMap d)" "enumerates ks' (nodeInfoMap d)"
    unfolding 1 using that by (simp add: set_NodeLister_List)
  have 3: "v \<notin> set (fst (NodeLister_HavePodsWithAffinityList ks d h))"
    if "\<forall>p \<in> set (NodeInfo_Pods (objects h v)). \<not> PodAffinity p" for v
    unfolding 1 using that by simp
  from 1 2 3 show ?thesis by blast
qed

theorem havePodsWithAffinity_exact_witness:
  "enumerates [''n1'', ''n2''] (nodeInfoMap (getInternalData (fst two_node_world))) \<and>
   enumerates [''n2'', ''n1''] (nodeInfoMap (getInternalData (fst two_node_world))) \<and>
   fst (NodeLister_List [''n2'', ''n1''] (getInternalData (fst two_node_world))) = [1, 0] \<and>
   NodeInfo_Pods (objects (snd two_node_world) 0) = [podA] \<and> \<not> PodAffinity podA \<and>
   NodeInfo_Pods (objects (snd two_node_world) 1) = [podB] \<and> PodAffinity podB \<and>
   set (fst (NodeLister_HavePodsWithAffinityList [''n1'', ''n2'']
               (getInternalData (fst two_node_world)) (snd two_node_world))) = {1}"
proof -
  define d where "d = getInternalData (fst two_node_world)"
  define h where "h = snd two_node_world"
  have en: "enumerates [''n1'', ''n2''] (nodeInfoMap d)" "enumerates [''n2'', ''n1''] (nodeInfoMap d)"
    by (simp_all add: d_def two_node_world_def snapshot_eval insert_commute)
  have l: "fst (NodeLister_List [''n2'', ''n1''] d) = [1, 0]"
    by (simp add: d_def two_node_world_def snapshot_eval NodeLister_List_def)
  have ps: "NodeInfo_Pods (objects h 0) = [podA]" "NodeInfo_Pods (objects h 1) = [podB]"
    by (simp_all add: h_def two_node_world_def snapshot_eval)
  have af: "\<not> PodAffinity podA" "PodAffinity podB" by (simp_all add: podA_def podB_def)
  from havePodsWithAffinity_exact[where ks = "[''n1'', ''n2'']" and ks' = "[''n2'', ''n1'']"
      and d = d and h = h] en l ps af
  have "set (fst (NodeLister_HavePodsWithAffinityList [''n1'', ''n2''] d h)) = {1}"
    by auto
  with en l ps af show ?thesis by (simp add: d_def h_def)
qed

subsection \<open>Errors of the read operations\<close>

text \<open>
  Claim C10. \<open>GetAllPods\<close>, \<open>GetAllNodes\<close>, \<open>GetSchedulerLister\<close>, the node lister's \<open>List\<close> and
  \<open>HavePodsWithAffinityList\<close> and the pod lister's \<open>List\<close> and \<open>FilteredList\<close> return a \<open>nil\<close>
  error in every state. \<open>Get\<close> returns the pointer and no error for a mapped name, and no
  pointer and \<open>NodeNotFound\<close> otherwise.
\<close>

theorem bulk_reads_never_fail:
  "snd (GetAllPods ks w) = None \<and> snd (GetAllNodes ks w) = None \<and>
   snd (GetSchedulerLister w) = None \<and>
   snd (getAllPods ks d h) = None \<and> snd (getAllNodes ks d h) = None \<and>
   snd (NodeLister_List ks d) = None \<and>
   snd (NodeLister_HavePodsWithAffinityList ks d h) = None \<and>
   snd (PodLister_List ks selector d h) = None \<and>
   snd (PodLister_FilteredList ks podFilter selector d h) = None \<and>
   (nodeInfoMap d nodeName = None \<longrightarrow>
      NodeLister_Get nodeName d = (None, Some (NodeNotFound nodeName))) \<and>
   (\<forall>v. nodeInfoMap d nodeName = Some v \<longrightarrow> NodeLister_Get nodeName d = (Some v, None))"
  by (cases w)
    (simp add: GetAllPods_def GetAllNodes_def GetSchedulerLister_def getAllPods_def
      getAllNodes_def NodeLister_List_def NodeLister_HavePodsWithAffinityList_def
      PodLister_List_def PodLister_FilteredList_def NodeLister_Get_def)

theorem bulk_reads_never_fail_witness:
  "nodeInfoMap (getInternalData (fst two_node_world)) ''n3'' = None \<and>
   NodeLister_Get ''n3'' (getInternalData (fst two_node_world)) = (None, Some (NodeNotFound ''n3'')) \<and>
   nodeInfoMap (getInternalData (fst two_node_world)) ''n2'' = Some 1 \<and>
   NodeLister_Get ''n2'' (getInternalData (fst two_node_world)) = (Some 1, None) \<and>
   snd (GetAllPods [''n1'', ''n2''] two_node_world) = None \<and>
   snd (GetAllNodes [''n1'', ''n2''] two_node_world) = None"
proof -
  define d where "d = getInternalData (fst two_node_world)"
  have 1: "nodeInfoMap d ''n3'' = None" and 2: "nodeInfoMap d ''n2'' = Some 1"
    by (simp_all add: d_def two_node_world_def snapshot_eval)
  note T = bulk_reads_never_fail[where d = d and w = two_node_world and ks = "[''n1'', ''n2'']"]
  from T[where nodeName = "''n3''"] 1
  have a: "NodeLister_Get ''n3'' d = (None, Some (NodeNotFound ''n3''))" by blast
  from T[where nodeName = "''n2''"] 2
  have b: "NodeLister_Get ''n2'' d = (Some 1, None)" by blast
  from T have c: "snd (GetAllPods [''n1'', ''n2''] two_node_world) = None"
    "snd (GetAllNodes [''n1'', ''n2''] two_node_world) = None" by blast+
  from 1 2 a b c show ?thesis by (simp add: d_def)
qed

end
